theory Spec2Isabelle
  imports Main "HOL-Library.Word" "HOL-Library.Multiset"
begin

section \<open>Data model (entity package, service/game.go)\<close>

text \<open>
  A \<open>*websocket.Conn\<close> is used only as a handle compared by identity, a \<open>uuid.UUID\<close>
  only for equality; both are natural numbers here. Go's \<open>int\<close> is the 64-bit signed
  integer: values are integers and every arithmetic result passes through \<open>wrap64\<close>.
\<close>

type_synonym conn = nat
type_synonym uuid = nat
type_synonym byte = "8 word"

definition wrap64 :: "int \<Rightarrow> int" where
  "wrap64 x = (x + 2 ^ 63) mod 2 ^ 64 - 2 ^ 63"

record QuizChoice =
  choiceId :: string
  choiceName :: string
  Correct :: bool

record QuizQuestion =
  questionId :: string
  questionName :: string
  questionTime :: int
  Choices :: "QuizChoice list"

record Quiz =
  quizId :: string
  quizName :: string
  Questions :: "QuizQuestion list"

record Player =
  playerId :: uuid
  playerName :: string
  Connection :: conn
  Points :: int
  LastAwardedPoints :: int
  Answered :: bool

datatype GameState = LobbyState | PlayState | IntermissionState | RevealState | EndState

record LeaderboardEntry =
  entryName :: string
  entryPoints :: int

text \<open>
  The field \<open>timers\<close> is not a field of the Go struct: it counts the countdown
  goroutines that \<open>Start\<close> has launched for the game and that have not yet returned.
\<close>

record Game =
  gameId :: uuid
  gameQuiz :: Quiz
  CurrentQuestion :: int
  Code :: string
  State :: GameState
  Ended :: bool
  Time :: int
  Players :: "Player list"
  Host :: conn
  timers :: nat

record NetService =
  games :: "Game list"

section \<open>Packets (service/net.go)\<close>

datatype packet =
    ConnectPacket string string
  | HostGamePacket string
  | QuestionShowPacket QuizQuestion
  | ChangeGameStatePacket GameState
  | PlayerJoinPacket Player
  | PlayerDisconnectPacket uuid
  | StartGamePacket
  | TickPacket int
  | QuestionAnswerPacket int
  | PlayerRevealPacket int
  | LeaderboardPacket "LeaderboardEntry list"

text \<open>
  A value of Go's \<open>any\<close> that holds a packet: the struct itself or a pointer to it.
  The two have different dynamic types, which the type switches tell apart.
\<close>

datatype anyval = Val packet | Ptr packet

datatype error = IndexOutOfRange | InvalidPacketType | MarshalError

text \<open>
  What the code calls outside the repository, one record per handler invocation:
  \<open>encoding/json\<close>, the Mongo driver, \<open>sort.Slice\<close>, \<open>WriteMessage\<close> of the
  transport (\<open>True\<close>: no error), \<open>uuid.New\<close> and \<open>rand.Intn\<close>.
\<close>

record externals =
  marshal :: "anyval \<Rightarrow> byte list option"
  unmarshal :: "byte list \<Rightarrow> packet \<Rightarrow> packet option"
  objectIDFromHex :: "string \<Rightarrow> string option"
  getQuizById :: "string \<Rightarrow> Quiz option"
  sortSlice :: "(Player \<Rightarrow> Player \<Rightarrow> bool) \<Rightarrow> Player list \<Rightarrow> Player list"
  writeMessage :: "conn \<Rightarrow> byte list \<Rightarrow> bool"
  newUuid :: uuid
  randIntn :: "int \<Rightarrow> int"

type_synonym out = "conn \<times> byte list"

fun packetIdToPacket :: "byte \<Rightarrow> anyval option" where
  "packetIdToPacket packetId =
     (if packetId = 0 then Some (Ptr (ConnectPacket [] []))
      else if packetId = 1 then Some (Ptr (HostGamePacket []))
      else if packetId = 5 then Some (Ptr StartGamePacket)
      else if packetId = 7 then Some (Ptr (QuestionAnswerPacket 0))
      else None)"

fun packetToPacketId :: "anyval \<Rightarrow> error + byte" where
  "packetToPacketId (Val (QuestionShowPacket q)) = Inr 2"
| "packetToPacketId (Val (HostGamePacket c)) = Inr 1"
| "packetToPacketId (Val (ChangeGameStatePacket s)) = Inr 3"
| "packetToPacketId (Val (PlayerJoinPacket p)) = Inr 4"
| "packetToPacketId (Val (TickPacket t)) = Inr 6"
| "packetToPacketId (Val (PlayerRevealPacket n)) = Inr 8"
| "packetToPacketId (Val (LeaderboardPacket es)) = Inr 9"
| "packetToPacketId (Val (PlayerDisconnectPacket u)) = Inr 10"
| "packetToPacketId _ = Inl InvalidPacketType"

definition PacketToBytes :: "externals \<Rightarrow> anyval \<Rightarrow> error + byte list" where
  "PacketToBytes X packet =
     (case packetToPacketId packet of
        Inl e \<Rightarrow> Inl e
      | Inr packetId \<Rightarrow>
          (case marshal X packet of
             None \<Rightarrow> Inl MarshalError
           | Some bytes \<Rightarrow> Inr (packetId # bytes)))"

text \<open>\<open>SendPacket\<close> returns the message handed to the transport, if any, and whether
  it returned no error.\<close>

definition SendPacket :: "externals \<Rightarrow> conn \<Rightarrow> anyval \<Rightarrow> out list \<times> bool" where
  "SendPacket X connection packet =
     (case PacketToBytes X packet of
        Inl e \<Rightarrow> ([], False)
      | Inr bytes \<Rightarrow> ([(connection, bytes)], writeMessage X connection bytes))"

section \<open>The game (service/game.go)\<close>

definition digitChar :: "nat \<Rightarrow> char" where
  "digitChar d = ''0123456789'' ! d"

fun digitsOf :: "nat \<Rightarrow> string" where
  "digitsOf n =
     (if n < 10 then [digitChar n]
      else digitsOf (n div 10) @ [digitChar (n mod 10)])"

declare digitsOf.simps [simp del]

definition Itoa :: "int \<Rightarrow> string" where
  "Itoa i = (if i < 0 then CHR ''-'' # digitsOf (nat (- i)) else digitsOf (nat i))"

definition generateCode :: "externals \<Rightarrow> string" where
  "generateCode X = Itoa (100000 + randIntn X 900000)"

definition newGame :: "externals \<Rightarrow> Quiz \<Rightarrow> conn \<Rightarrow> Game" where
  "newGame X quiz host =
     \<lparr> gameId = newUuid X, gameQuiz = quiz, CurrentQuestion = - 1,
       Code = generateCode X, State = LobbyState, Ended = False, Time = 60,
       Players = [], Host = host, timers = 0 \<rparr>"

text \<open>The loop of \<open>BroadcastPacket\<close> over the players: it returns at the first error.\<close>

fun sendEach :: "externals \<Rightarrow> conn list \<Rightarrow> anyval \<Rightarrow> out list \<times> bool" where
  "sendEach X [] packet = ([], True)"
| "sendEach X (c # cs) packet =
     (let (o1, ok) = SendPacket X c packet
      in if \<not> ok then (o1, False)
         else (let (os, ok') = sendEach X cs packet in (o1 @ os, ok')))"

definition BroadcastPacket :: "externals \<Rightarrow> Game \<Rightarrow> anyval \<Rightarrow> bool \<Rightarrow> out list \<times> bool" where
  "BroadcastPacket X g packet includeHost =
     (let (os, ok) = sendEach X (map Connection (Players g)) packet
      in if \<not> ok then (os, False)
         else if includeHost
              then (let (oh, okh) = SendPacket X (Host g) packet in (os @ oh, okh))
              else (os, True))"

definition ChangeState :: "externals \<Rightarrow> GameState \<Rightarrow> Game \<Rightarrow> Game \<times> out list" where
  "ChangeState X state g =
     (let g1 = g\<lparr>State := state\<rparr>
      in (g1, fst (BroadcastPacket X g1 (Val (ChangeGameStatePacket state)) True)))"

definition ResetPlayerAnswerStates :: "Game \<Rightarrow> Game" where
  "ResetPlayerAnswerStates g =
     g\<lparr>Players := map (\<lambda>player. player\<lparr>Answered := False\<rparr>) (Players g)\<rparr>"

definition End :: "externals \<Rightarrow> Game \<Rightarrow> Game \<times> out list" where
  "End X g = ChangeState X EndState (g\<lparr>Ended := True\<rparr>)"

text \<open>Indexing a slice out of range panics.\<close>

definition getCurrentQuestion :: "Game \<Rightarrow> error + QuizQuestion" where
  "getCurrentQuestion g =
     (if 0 \<le> CurrentQuestion g \<and> CurrentQuestion g < int (length (Questions (gameQuiz g)))
      then Inr (Questions (gameQuiz g) ! nat (CurrentQuestion g))
      else Inl IndexOutOfRange)"

text \<open>
  Operations that can panic return the game as the panic leaves it, the messages handed
  to the transport before it, and the panic if there was one.
\<close>

definition NextQuestion :: "externals \<Rightarrow> Game \<Rightarrow> Game \<times> out list \<times> error option" where
  "NextQuestion X g =
     (let g1 = g\<lparr>CurrentQuestion := wrap64 (CurrentQuestion g + 1)\<rparr>
      in if CurrentQuestion g1 \<ge> int (length (Questions (gameQuiz g1)))
         then (let (g2, o2) = End X g1 in (g2, o2, None))
         else (let g2 = ResetPlayerAnswerStates g1;
                   (g3, o3) = ChangeState X PlayState g2
               in case getCurrentQuestion g3 of
                    Inl e \<Rightarrow> (g3, o3, Some e)
                  | Inr currentQuestion \<Rightarrow>
                      (let g4 = g3\<lparr>Time := questionTime currentQuestion\<rparr>
                       in (g4,
                           o3 @ fst (SendPacket X (Host g4) (Val (QuestionShowPacket currentQuestion))),
                           None))))"

definition revealPlayer :: "externals \<Rightarrow> Player \<Rightarrow> Player \<times> out list" where
  "revealPlayer X player =
     (let p1 = (if \<not> Answered player then player\<lparr>LastAwardedPoints := 0\<rparr> else player)
      in (p1, fst (SendPacket X (Connection p1) (Val (PlayerRevealPacket (LastAwardedPoints p1))))))"

definition Reveal :: "externals \<Rightarrow> Game \<Rightarrow> Game \<times> out list" where
  "Reveal X g =
     (let g1 = g\<lparr>Time := 5\<rparr>;
          rs = map (revealPlayer X) (Players g1);
          g2 = g1\<lparr>Players := map fst rs\<rparr>;
          (g3, o3) = ChangeState X RevealState g2
      in (g3, concat (map snd rs) @ o3))"

text \<open>
  \<open>sort.Slice\<close> reorders \<open>g.Players\<close> itself; the comparison of the source is
  \<open>g.Players[i].Points > g.Players[j].Points\<close>.
\<close>

definition getLeaderboard :: "externals \<Rightarrow> Game \<Rightarrow> Game \<times> LeaderboardEntry list" where
  "getLeaderboard X g =
     (let g1 = g\<lparr>Players := sortSlice X (\<lambda>a b. Points a > Points b) (Players g)\<rparr>
      in (g1,
          map (\<lambda>player. \<lparr>entryName = playerName player, entryPoints = Points player\<rparr>)
              (take (min 3 (length (Players g1))) (Players g1))))"

definition Intermission :: "externals \<Rightarrow> Game \<Rightarrow> Game \<times> out list" where
  "Intermission X g =
     (let g1 = g\<lparr>Time := 30\<rparr>;
          (g2, o2) = ChangeState X IntermissionState g1;
          (g3, leaderboard) = getLeaderboard X g2
      in (g3, o2 @ fst (SendPacket X (Host g3) (Val (LeaderboardPacket leaderboard)))))"

definition Tick :: "externals \<Rightarrow> Game \<Rightarrow> Game \<times> out list \<times> error option" where
  "Tick X g =
     (let g1 = g\<lparr>Time := wrap64 (Time g - 1)\<rparr>;
          o1 = fst (SendPacket X (Host g1) (Val (TickPacket (Time g1))))
      in if Time g1 = 0
         then (case State g1 of
                 PlayState \<Rightarrow> (let (g2, o2) = Reveal X g1 in (g2, o1 @ o2, None))
               | RevealState \<Rightarrow> (let (g2, o2) = Intermission X g1 in (g2, o1 @ o2, None))
               | IntermissionState \<Rightarrow>
                   (let (g2, o2, e) = NextQuestion X g1 in (g2, o1 @ o2, e))
               | _ \<Rightarrow> (g1, o1, None))
         else (g1, o1, None))"

text \<open>\<open>Start\<close> launches the countdown goroutine after \<open>NextQuestion\<close> has returned.\<close>

definition Start :: "externals \<Rightarrow> Game \<Rightarrow> Game \<times> out list \<times> error option" where
  "Start X g =
     (let (g1, o1) = ChangeState X PlayState g;
          (g2, o2, e) = NextQuestion X g1
      in case e of
           Some err \<Rightarrow> (g2, o1 @ o2, Some err)
         | None \<Rightarrow> (g2\<lparr>timers := Suc (timers g2)\<rparr>, o1 @ o2, None))"

definition StartOrSkip :: "externals \<Rightarrow> Game \<Rightarrow> Game \<times> out list \<times> error option" where
  "StartOrSkip X g = (if State g = LobbyState then Start X g else NextQuestion X g)"

text \<open>One iteration of the loop of a countdown goroutine (\<open>Start\<close>, the \<open>for\<close>).\<close>

definition timerIteration :: "externals \<Rightarrow> Game \<Rightarrow> Game \<times> out list \<times> error option" where
  "timerIteration X g =
     (if timers g = 0 then (g, [], None)
      else if Ended g then (g\<lparr>timers := timers g - 1\<rparr>, [], None)
      else Tick X g)"

definition OnPlayerJoin :: "externals \<Rightarrow> string \<Rightarrow> conn \<Rightarrow> Game \<Rightarrow> Game \<times> out list" where
  "OnPlayerJoin X name connection g =
     (let player = \<lparr> playerId = newUuid X, playerName = name, Connection = connection,
                      Points = 0, LastAwardedPoints = 0, Answered = False \<rparr>;
          g1 = g\<lparr>Players := Players g @ [player]\<rparr>
      in (g1,
          fst (SendPacket X connection (Val (ChangeGameStatePacket (State g1))))
          @ fst (SendPacket X (Host g1) (Val (PlayerJoinPacket player)))))"

definition OnPlayerDisconnect :: "externals \<Rightarrow> Player \<Rightarrow> Game \<Rightarrow> Game \<times> out list" where
  "OnPlayerDisconnect X player g =
     (let g1 = g\<lparr>Players := filter (\<lambda>p. playerId p \<noteq> playerId player) (Players g)\<rparr>
      in (g1, fst (SendPacket X (Host g1) (Val (PlayerDisconnectPacket (playerId player))))))"

definition getAnsweredPlayers :: "Game \<Rightarrow> Player list" where
  "getAnsweredPlayers g = filter Answered (Players g)"

definition isCorrectChoice :: "Game \<Rightarrow> int \<Rightarrow> error + bool" where
  "isCorrectChoice g choiceIndex =
     (case getCurrentQuestion g of
        Inl e \<Rightarrow> Inl e
      | Inr q \<Rightarrow>
          (let choices = Choices q
           in if choiceIndex < 0 \<or> choiceIndex \<ge> int (length choices) then Inr False
              else Inr (Correct (choices ! nat choiceIndex))))"

text \<open>
  \<open>1000 / 60\<close> is a division of integer constants. \<open>math.Min\<close> is applied to the
  small whole numbers 4 and the number of answered players, where the conversions to
  and from \<open>float64\<close> are exact.
\<close>

definition getPointsReward :: "Game \<Rightarrow> int" where
  "getPointsReward g =
     (let answered = int (length (getAnsweredPlayers g));
          orderReward = 5000 - 1000 * min 4 answered;
          timeReward = wrap64 (Time g * (1000 div 60))
      in wrap64 (orderReward + timeReward))"

text \<open>The \<open>*Player\<close> argument is the element \<open>i\<close> of the roster of the game.\<close>

definition OnPlayerAnswer :: "externals \<Rightarrow> int \<Rightarrow> nat \<Rightarrow> Game \<Rightarrow> Game \<times> out list \<times> error option" where
  "OnPlayerAnswer X choice i g =
     (case isCorrectChoice g choice of
        Inl e \<Rightarrow> (g, [], Some e)
      | Inr correct \<Rightarrow>
          (let player = Players g ! i;
               p1 = (if correct
                     then (let reward = getPointsReward g
                           in player\<lparr>LastAwardedPoints := reward,
                                     Points := wrap64 (Points player + reward)\<rparr>)
                     else player\<lparr>LastAwardedPoints := 0\<rparr>);
               p2 = p1\<lparr>Answered := True\<rparr>;
               g1 = g\<lparr>Players := (Players g)[i := p2]\<rparr>
           in if length (getAnsweredPlayers g1) = length (Players g1)
              then (let (g2, o2) = Reveal X g1 in (g2, o2, None))
              else (g1, [], None)))"

section \<open>The net service (service/net.go)\<close>

fun firstIndex :: "('a \<Rightarrow> bool) \<Rightarrow> 'a list \<Rightarrow> nat option" where
  "firstIndex P [] = None"
| "firstIndex P (x # xs) = (if P x then Some 0 else map_option Suc (firstIndex P xs))"

text \<open>The lookups return pointers into \<open>c.games\<close>: here, positions.\<close>

definition getGameByCode :: "NetService \<Rightarrow> string \<Rightarrow> nat option" where
  "getGameByCode s code = firstIndex (\<lambda>game. Code game = code) (games s)"

definition getGameByHost :: "NetService \<Rightarrow> conn \<Rightarrow> nat option" where
  "getGameByHost s host = firstIndex (\<lambda>game. Host game = host) (games s)"

fun playerIn :: "conn \<Rightarrow> Game list \<Rightarrow> (nat \<times> nat) option" where
  "playerIn con [] = None"
| "playerIn con (game # gs) =
     (case firstIndex (\<lambda>player. Connection player = con) (Players game) of
        Some i \<Rightarrow> Some (0, i)
      | None \<Rightarrow> map_option (\<lambda>(k, i). (Suc k, i)) (playerIn con gs))"

definition getGameByPlayer :: "NetService \<Rightarrow> conn \<Rightarrow> (nat \<times> nat) option" where
  "getGameByPlayer s con = playerIn con (games s)"

type_synonym result = "NetService \<times> out list \<times> error option"

definition OnDisconnect :: "externals \<Rightarrow> conn \<Rightarrow> NetService \<Rightarrow> result" where
  "OnDisconnect X con s =
     (case getGameByPlayer s con of
        None \<Rightarrow> (s, [], None)
      | Some (k, i) \<Rightarrow>
          (let game = games s ! k;
               (g1, o1) = OnPlayerDisconnect X (Players game ! i) game
           in (s\<lparr>games := (games s)[k := g1]\<rparr>, o1, None)))"

text \<open>The first half of \<open>OnIncomingMessage\<close>, up to the filled packet.\<close>

definition decodeIncoming :: "externals \<Rightarrow> byte list \<Rightarrow> anyval option" where
  "decodeIncoming X msg =
     (if length msg < 2 then None
      else (let packetId = msg ! 0; data = drop 1 msg
            in case packetIdToPacket packetId of
                 None \<Rightarrow> None
               | Some (Val p) \<Rightarrow> None
               | Some (Ptr p) \<Rightarrow> map_option Ptr (unmarshal X data p)))"

text \<open>The second half: the type switch on the filled packet.\<close>

definition dispatch :: "externals \<Rightarrow> conn \<Rightarrow> anyval \<Rightarrow> NetService \<Rightarrow> result" where
  "dispatch X con packet s =
     (case packet of
        Ptr (ConnectPacket code name) \<Rightarrow>
          (case getGameByCode s code of
             None \<Rightarrow> (s, [], None)
           | Some k \<Rightarrow>
               (let (g1, o1) = OnPlayerJoin X name con (games s ! k)
                in (s\<lparr>games := (games s)[k := g1]\<rparr>, o1, None)))
      | Ptr (HostGamePacket qid) \<Rightarrow>
          (case objectIDFromHex X qid of
             None \<Rightarrow> (s, [], None)
           | Some oid \<Rightarrow>
               (case getQuizById X oid of
                  None \<Rightarrow> (s, [], None)
                | Some quiz \<Rightarrow>
                    (let game = newGame X quiz con
                     in (s\<lparr>games := games s @ [game]\<rparr>,
                         fst (SendPacket X con (Val (HostGamePacket (Code game))))
                         @ fst (SendPacket X con (Val (ChangeGameStatePacket (State game)))),
                         None))))
      | Ptr StartGamePacket \<Rightarrow>
          (case getGameByHost s con of
             None \<Rightarrow> (s, [], None)
           | Some k \<Rightarrow>
               (let (g1, o1, e) = StartOrSkip X (games s ! k)
                in (s\<lparr>games := (games s)[k := g1]\<rparr>, o1, e)))
      | Ptr (QuestionAnswerPacket question) \<Rightarrow>
          (case getGameByPlayer s con of
             None \<Rightarrow> (s, [], None)
           | Some (k, i) \<Rightarrow>
               (let (g1, o1, e) = OnPlayerAnswer X question i (games s ! k)
                in (s\<lparr>games := (games s)[k := g1]\<rparr>, o1, e)))
      | _ \<Rightarrow> (s, [], None))"

definition OnIncomingMessage :: "externals \<Rightarrow> conn \<Rightarrow> byte list \<Rightarrow> NetService \<Rightarrow> result" where
  "OnIncomingMessage X con msg s =
     (case decodeIncoming X msg of
        None \<Rightarrow> (s, [], None)
      | Some packet \<Rightarrow> dispatch X con packet s)"

section \<open>Executions\<close>

text \<open>
  What can happen to one game: the host's start-or-skip, one iteration of a countdown
  loop, an answer of the roster's player \<open>i\<close>, a join, the disconnect of player \<open>i\<close>.
  The dispatcher hands an answer or a disconnect to a game only for a player found in
  its roster.
\<close>

datatype gevent =
    EvStartOrSkip
  | EvTimer
  | EvAnswer int nat
  | EvJoin string conn
  | EvDisconnect nat

definition gstep :: "externals \<Rightarrow> gevent \<Rightarrow> Game \<Rightarrow> Game \<times> out list \<times> error option" where
  "gstep X ev g =
     (case ev of
        EvStartOrSkip \<Rightarrow> StartOrSkip X g
      | EvTimer \<Rightarrow> timerIteration X g
      | EvAnswer choice i \<Rightarrow>
          (if i < length (Players g) then OnPlayerAnswer X choice i g else (g, [], None))
      | EvJoin name con \<Rightarrow> (let (g1, o1) = OnPlayerJoin X name con g in (g1, o1, None))
      | EvDisconnect i \<Rightarrow>
          (if i < length (Players g)
           then (let (g1, o1) = OnPlayerDisconnect X (Players g ! i) g in (g1, o1, None))
           else (g, [], None)))"

text \<open>
  A run: each event meets the game as the previous one left it (also after a panic,
  which ends only the handler it happened in), with the externals of its own moment.
\<close>

fun grun :: "(externals \<times> gevent) list \<Rightarrow> Game \<Rightarrow> Game \<times> out list" where
  "grun [] g = (g, [])"
| "grun ((X, ev) # es) g =
     (let (g1, o1, e) = gstep X ev g;
          (g2, o2) = grun es g1
      in (g2, o1 @ o2))"

datatype event =
    Incoming conn "byte list"
  | Disconnect conn
  | Timer nat

definition step :: "externals \<Rightarrow> event \<Rightarrow> NetService \<Rightarrow> result" where
  "step X ev s =
     (case ev of
        Incoming con msg \<Rightarrow> OnIncomingMessage X con msg s
      | Disconnect con \<Rightarrow> OnDisconnect X con s
      | Timer k \<Rightarrow>
          (if k < length (games s)
           then (let (g1, o1, e) = timerIteration X (games s ! k)
                 in (s\<lparr>games := (games s)[k := g1]\<rparr>, o1, e))
           else (s, [], None)))"

fun run :: "(externals \<times> event) list \<Rightarrow> NetService \<Rightarrow> NetService \<times> out list" where
  "run [] s = (s, [])"
| "run ((X, ev) # es) s =
     (let (s1, o1, e) = step X ev s;
          (s2, o2) = run es s1
      in (s2, o1 @ o2))"

text \<open>The tag byte of a message on the wire; no message of the server is empty.\<close>

definition tagOf :: "out \<Rightarrow> byte option" where
  "tagOf m = (case snd m of [] \<Rightarrow> None | b # bs \<Rightarrow> Some b)"

text \<open>
  What \<open>sort.Slice\<close> promises for the comparison of \<open>getLeaderboard\<close> at the roster
  \<open>xs\<close>: the same players, no player before one with more points. It does not promise
  stability.
\<close>

definition sliceSorted :: "externals \<Rightarrow> Player list \<Rightarrow> bool" where
  "sliceSorted X xs =
     (let ys = sortSlice X (\<lambda>a b. Points a > Points b) xs
      in mset ys = mset xs \<and> sorted_wrt (\<lambda>a b. \<not> Points b > Points a) ys)"

text \<open>
  \<open>json.Unmarshal\<close> fills the struct whose pointer it is given: what it returns has
  the type of what it was handed.
\<close>

fun sameKind :: "packet \<Rightarrow> packet \<Rightarrow> bool" where
  "sameKind (ConnectPacket c n) (ConnectPacket c' n') = True"
| "sameKind (HostGamePacket q) (HostGamePacket q') = True"
| "sameKind StartGamePacket StartGamePacket = True"
| "sameKind (QuestionAnswerPacket k) (QuestionAnswerPacket k') = True"
| "sameKind p p' = False"

definition fillsGiven :: "externals \<Rightarrow> bool" where
  "fillsGiven X = (\<forall>d p0 p. unmarshal X d p0 = Some p \<longrightarrow> sameKind p0 p)"

section \<open>Concrete inputs\<close>

fun insertLess :: "('a \<Rightarrow> 'a \<Rightarrow> bool) \<Rightarrow> 'a \<Rightarrow> 'a list \<Rightarrow> 'a list" where
  "insertLess lt x [] = [x]"
| "insertLess lt x (y # ys) =
     (if lt y x then y # insertLess lt x ys else x # y # ys)"

text \<open>A stable insertion sort, and one that reverses the order of equal elements:
  two of the behaviours \<open>sort.Slice\<close> may show.\<close>

definition insertionSort :: "('a \<Rightarrow> 'a \<Rightarrow> bool) \<Rightarrow> 'a list \<Rightarrow> 'a list" where
  "insertionSort lt xs = foldr (insertLess lt) xs []"

definition reversingSort :: "('a \<Rightarrow> 'a \<Rightarrow> bool) \<Rightarrow> 'a list \<Rightarrow> 'a list" where
  "reversingSort lt xs = foldr (insertLess lt) (rev xs) []"

text \<open>The identifier of the quiz of the concrete runs, 24 hexadecimal digits.\<close>

definition exQuizId :: string where
  "exQuizId = ''0123456789abcdef01234567''"

text \<open>
  The payloads \<open>{}\<close>, \<open>{"quizId":"0123456789abcdef01234567"}\<close>,
  \<open>{"code":"123456","name":"a"}\<close> and \<open>{"question":0}\<close> as bytes.
\<close>

definition emptyJson :: "byte list" where
  "emptyJson = [123, 125]"

definition hostJson :: "byte list" where
  "hostJson = [123, 34, 113, 117, 105, 122, 73, 100, 34, 58, 34, 48, 49, 50, 51, 52,
                53, 54, 55, 56, 57, 97, 98, 99, 100, 101, 102, 48, 49, 50, 51, 52, 53,
                54, 55, 34, 125]"

definition connectJson :: "byte list" where
  "connectJson = [123, 34, 99, 111, 100, 101, 34, 58, 34, 49, 50, 51, 52, 53, 54, 34, 44,
                  34, 110, 97, 109, 101, 34, 58, 34, 97, 34, 125]"

definition answerJson :: "byte list" where
  "answerJson = [123, 34, 113, 117, 101, 115, 116, 105, 111, 110, 34, 58, 48, 125]"

text \<open>
  An environment for the concrete runs. Its JSON decoder knows the four payloads above;
  its encoder renders the HostGame packet of that quiz identifier and writes \<open>{}\<close>
  for every other packet, whose payload bytes play no role below. The quiz repository
  holds \<open>exQuiz\<close> under its identifier; the random number yields the code 123456.
\<close>

definition exUnmarshal :: "byte list \<Rightarrow> packet \<Rightarrow> packet option" where
  "exUnmarshal data p =
     (case p of
        ConnectPacket c n \<Rightarrow>
          (if data = connectJson then Some (ConnectPacket ''123456'' ''a'') else None)
      | HostGamePacket q \<Rightarrow> (if data = hostJson then Some (HostGamePacket exQuizId) else None)
      | StartGamePacket \<Rightarrow> (if data = emptyJson then Some StartGamePacket else None)
      | QuestionAnswerPacket k \<Rightarrow>
          (if data = answerJson then Some (QuestionAnswerPacket 0) else None)
      | _ \<Rightarrow> None)"

definition exMarshal :: "anyval \<Rightarrow> byte list option" where
  "exMarshal a = (if a = Val (HostGamePacket exQuizId) then Some hostJson else Some emptyJson)"

definition exQuestion :: QuizQuestion where
  "exQuestion =
     \<lparr> questionId = ''q0'', questionName = ''2 + 2'', questionTime = 60,
       Choices = [\<lparr>choiceId = ''c0'', choiceName = ''4'', Correct = True\<rparr>,
                  \<lparr>choiceId = ''c1'', choiceName = ''5'', Correct = False\<rparr>] \<rparr>"

definition exQuiz :: Quiz where
  "exQuiz = \<lparr> quizId = exQuizId, quizName = ''sums'', Questions = [exQuestion] \<rparr>"

definition exX :: externals where
  "exX =
     \<lparr> marshal = exMarshal, unmarshal = exUnmarshal, objectIDFromHex = (\<lambda>h. if h = exQuizId then Some h else None),
       getQuizById = (\<lambda>oid. if oid = exQuizId then Some exQuiz else None),
       sortSlice = insertionSort, writeMessage = (\<lambda>c bs. True), newUuid = 7,
       randIntn = (\<lambda>n. 23456) \<rparr>"

definition exPlayer :: "string \<Rightarrow> conn \<Rightarrow> int \<Rightarrow> bool \<Rightarrow> Player" where
  "exPlayer name con pts ans =
     \<lparr> playerId = con, playerName = name, Connection = con, Points = pts,
       LastAwardedPoints = 0, Answered = ans \<rparr>"

text \<open>A game on \<open>exQuiz\<close> in the Play state of question 0 with the given countdown
  and roster, hosted by connection 1.\<close>

definition exPlaying :: "int \<Rightarrow> Player list \<Rightarrow> Game" where
  "exPlaying t ps =
     \<lparr> gameId = 7, gameQuiz = exQuiz, CurrentQuestion = 0, Code = ''123456'',
       State = PlayState, Ended = False, Time = t, Players = ps, Host = 1, timers = 1 \<rparr>"

text \<open>
  The service after connection 1 has hosted \<open>exQuiz\<close> and connection 2 has joined
  with the code; and after the host has then started the game and skipped its only
  question.
\<close>

definition exLobby :: NetService where
  "exLobby = fst (run [(exX, Incoming 1 (1 # hostJson)), (exX, Incoming 2 (0 # connectJson))]
                      \<lparr>games = []\<rparr>)"

definition exOver :: NetService where
  "exOver = fst (run [(exX, Incoming 1 (5 # emptyJson)), (exX, Incoming 1 (5 # emptyJson))] exLobby)"



text \<open>
  What holds of a game between events: the question index is at least -1; outside the
  End state it is -1 or the index of a question of the quiz; in the End state it is at
  least the number of questions; and the \<open>Ended\<close> flag is set exactly in the End
  state.
\<close>

definition gameInv :: "Game \<Rightarrow> bool" where
  "gameInv g =
     (- 1 \<le> CurrentQuestion g
      \<and> (State g \<noteq> EndState \<longrightarrow>
           CurrentQuestion g = - 1
           \<or> (0 \<le> CurrentQuestion g
               \<and> CurrentQuestion g < int (length (Questions (gameQuiz g)))))
      \<and> (State g = EndState \<longrightarrow> int (length (Questions (gameQuiz g))) \<le> CurrentQuestion g)
      \<and> (Ended g \<longleftrightarrow> State g = EndState))"


text \<open>What a handler does to the service, when it does anything: one event on the game
  at position \<open>k\<close>, or a new game for a host.\<close>

definition onGame :: "externals \<Rightarrow> nat \<Rightarrow> gevent \<Rightarrow> NetService \<Rightarrow> result" where
  "onGame X k gev s =
     (s\<lparr>games := (games s)[k := fst (gstep X gev (games s ! k))]\<rparr>,
      fst (snd (gstep X gev (games s ! k))), snd (snd (gstep X gev (games s ! k))))"

definition hosted :: "externals \<Rightarrow> Quiz \<Rightarrow> conn \<Rightarrow> NetService \<Rightarrow> result" where
  "hosted X quiz con s =
     (s\<lparr>games := games s @ [newGame X quiz con]\<rparr>,
      fst (SendPacket X con (Val (HostGamePacket (Code (newGame X quiz con)))))
      @ fst (SendPacket X con (Val (ChangeGameStatePacket (State (newGame X quiz con))))),
      None)"

text \<open>Two runs of the service from no games: connection 1 hosts, a connection joins
  with the code, connection 1 starts the game. The one who joins is connection 2 in the
  first run and the host's own connection 1 in the second.\<close>

definition exRun :: "(externals \<times> event) list" where
  "exRun = [(exX, Incoming 1 (1 # hostJson)), (exX, Incoming 2 (0 # connectJson)),
            (exX, Incoming 1 (5 # emptyJson))]"

definition exSelfJoin :: "(externals \<times> event) list" where
  "exSelfJoin = [(exX, Incoming 1 (1 # hostJson)), (exX, Incoming 1 (0 # connectJson)),
                 (exX, Incoming 1 (5 # emptyJson))]"

section \<open>Properties\<close>

lemmas game_defs =
  OnPlayerAnswer_def isCorrectChoice_def getCurrentQuestion_def getPointsReward_def
  getAnsweredPlayers_def Reveal_def revealPlayer_def ChangeState_def BroadcastPacket_def
  SendPacket_def PacketToBytes_def NextQuestion_def End_def ResetPlayerAnswerStates_def
  Tick_def Intermission_def getLeaderboard_def Start_def StartOrSkip_def timerIteration_def
  OnPlayerJoin_def OnPlayerDisconnect_def newGame_def generateCode_def Itoa_def

lemmas ex_defs =
  exX_def exMarshal_def exUnmarshal_def exQuizId_def exQuiz_def exQuestion_def exPlayer_def
  exPlaying_def emptyJson_def hostJson_def connectJson_def answerJson_def insertionSort_def

subsection \<open>Scoring\<close>

lemma wrap64_id: "- (2 ^ 63) \<le> x \<Longrightarrow> x < 2 ^ 63 \<Longrightarrow> wrap64 x = x"
  unfolding wrap64_def by simp

lemma ChangeState_fst: "fst (ChangeState X st g) = g\<lparr>State := st\<rparr>"
  by (simp add: ChangeState_def Let_def)

lemma Reveal_fst:
  "fst (Reveal X g) =
     g\<lparr>Time := 5, Players := map (\<lambda>p. fst (revealPlayer X p)) (Players g), State := RevealState\<rparr>"
  by (simp add: Reveal_def Let_def ChangeState_def split_beta)

lemma revealPlayer_fst:
  "fst (revealPlayer X p) = (if Answered p then p else p\<lparr>LastAwardedPoints := 0\<rparr>)"
  by (simp add: revealPlayer_def Let_def)

lemma revealPlayer_Answered: "Answered (fst (revealPlayer X p)) = Answered p"
  by (simp add: revealPlayer_fst)

lemma Answered_o_reveal: "Answered \<circ> (\<lambda>p. fst (revealPlayer X p)) = Answered"
  by (rule ext) (simp add: revealPlayer_Answered)

lemma filter_Answered_reveal:
  "length (filter Answered (map (\<lambda>p. fst (revealPlayer X p)) ps)) = length (filter Answered ps)"
  by (induction ps) (simp_all add: revealPlayer_Answered)

lemma length_filter_update:
  "i < length xs \<Longrightarrow> \<not> P (xs ! i) \<Longrightarrow> P y \<Longrightarrow>
   length (filter P (xs[i := y])) = Suc (length (filter P xs))"
proof (induction xs arbitrary: i)
  case Nil
  then show ?case by simp
next
  case (Cons x xs)
  then show ?case by (cases i) simp_all
qed

lemma getPointsReward_plain:
  assumes "- (2 ^ 58) \<le> Time g" and "Time g < 2 ^ 58"
  shows "getPointsReward g = 5000 - 1000 * min 4 (int (length (getAnsweredPlayers g))) + Time g * 16"
proof -
  have t: "wrap64 (Time g * 16) = Time g * 16"
    using assms by (intro wrap64_id) simp_all
  have "wrap64 (5000 - 1000 * min 4 (int (length (getAnsweredPlayers g))) + Time g * 16)
          = 5000 - 1000 * min 4 (int (length (getAnsweredPlayers g))) + Time g * 16"
    using assms by (intro wrap64_id) (simp_all add: min_def)
  then show ?thesis
    by (simp add: getPointsReward_def Let_def t)
qed

lemma OnPlayerAnswer_player:
  assumes "i < length (Players g)" and "isCorrectChoice g choice = Inr c"
  shows "Players (fst (OnPlayerAnswer X choice i g)) ! i =
           (if c then (Players g ! i)\<lparr>LastAwardedPoints := getPointsReward g,
                        Points := wrap64 (Points (Players g ! i) + getPointsReward g),
                        Answered := True\<rparr>
            else (Players g ! i)\<lparr>LastAwardedPoints := 0, Answered := True\<rparr>)"
  using assms
  by (simp add: OnPlayerAnswer_def Let_def split_beta Reveal_fst revealPlayer_fst)

lemma OnPlayerAnswer_count:
  assumes "i < length (Players g)" and "isCorrectChoice g choice = Inr c"
    and "\<not> Answered (Players g ! i)"
  shows "length (getAnsweredPlayers (fst (OnPlayerAnswer X choice i g))) =
           Suc (length (getAnsweredPlayers g))"
  using assms
  by (simp add: OnPlayerAnswer_def Let_def split_beta Reveal_fst getAnsweredPlayers_def
      Answered_o_reveal length_filter_update)

text \<open>
  Claim C1, as the code has it. For an answer of the roster's player \<open>i\<close> with a
  correct choice, the points awarded are \<open>5000 - 1000 * min 4 a + 16 * t\<close>, where
  \<open>a\<close> is the number of players whose answered flag is set when the answer arrives
  and \<open>t\<close> the countdown (\<open>1000 / 60\<close> is 16), and they are added to the player's
  total. With 30 seconds left this is 5480, 4480, 1480 and 1480 for \<open>a\<close> = 0, 1, 4
  and 5. An incorrect choice awards 0 and leaves the total alone. For a player who had
  not answered yet, \<open>a\<close> is the number of players who have answered, this one
  included, minus one. The countdown is taken between \<open>- (2 ^ 58)\<close> and
  \<open>2 ^ 58\<close>, where the 64-bit arithmetic does not wrap.
\<close>

theorem scoring_formula:
  assumes "i < length (Players g)" and "- (2 ^ 58) \<le> Time g" and "Time g < 2 ^ 58"
    and "OnPlayerAnswer X choice i g = (g', outs, e)"
  shows
    "(isCorrectChoice g choice = Inr True \<longrightarrow>
        LastAwardedPoints (Players g' ! i) =
          5000 - 1000 * min 4 (int (length (getAnsweredPlayers g))) + Time g * 16
        \<and> Points (Players g' ! i) =
            wrap64 (Points (Players g ! i) + LastAwardedPoints (Players g' ! i))
        \<and> (Time g = 30 \<longrightarrow>
             (length (getAnsweredPlayers g) = 0 \<longrightarrow> LastAwardedPoints (Players g' ! i) = 5480)
           \<and> (length (getAnsweredPlayers g) = 1 \<longrightarrow> LastAwardedPoints (Players g' ! i) = 4480)
           \<and> (length (getAnsweredPlayers g) = 4 \<longrightarrow> LastAwardedPoints (Players g' ! i) = 1480)
           \<and> (length (getAnsweredPlayers g) = 5 \<longrightarrow> LastAwardedPoints (Players g' ! i) = 1480)))
   \<and> (isCorrectChoice g choice = Inr False \<longrightarrow>
        LastAwardedPoints (Players g' ! i) = 0 \<and> Points (Players g' ! i) = Points (Players g ! i))
   \<and> (e = None \<and> \<not> Answered (Players g ! i) \<longrightarrow>
        int (length (getAnsweredPlayers g)) = int (length (getAnsweredPlayers g')) - 1)"
proof -
  have g': "g' = fst (OnPlayerAnswer X choice i g)"
    using assms(4) by simp
  have r: "getPointsReward g =
             5000 - 1000 * min 4 (int (length (getAnsweredPlayers g))) + Time g * 16"
    using assms(2,3) by (rule getPointsReward_plain)
  have correct: "isCorrectChoice g choice = Inr True \<Longrightarrow>
      LastAwardedPoints (Players g' ! i) = getPointsReward g
      \<and> Points (Players g' ! i) = wrap64 (Points (Players g ! i) + getPointsReward g)"
    using OnPlayerAnswer_player [OF assms(1), of choice True X] by (simp add: g')
  have wrong: "isCorrectChoice g choice = Inr False \<Longrightarrow>
      LastAwardedPoints (Players g' ! i) = 0 \<and> Points (Players g' ! i) = Points (Players g ! i)"
    using OnPlayerAnswer_player [OF assms(1), of choice False X] by (simp add: g')
  have e: "e = None \<Longrightarrow> \<exists>c. isCorrectChoice g choice = Inr c"
    using assms(4) by (cases "isCorrectChoice g choice") (simp_all add: OnPlayerAnswer_def)
  have count: "e = None \<and> \<not> Answered (Players g ! i) \<Longrightarrow>
      int (length (getAnsweredPlayers g)) = int (length (getAnsweredPlayers g')) - 1"
    using e OnPlayerAnswer_count [OF assms(1), of choice _ X] by (auto simp: g')
  show ?thesis
    using correct wrong count r by auto
qed

text \<open>The theorem at a 60-second question with 30 seconds left, answered second.\<close>

theorem scoring_formula_witness:
  "0 < length (Players (exPlaying 30 [exPlayer ''a'' 2 0 False, exPlayer ''b'' 3 0 True]))
   \<and> - (2 ^ 58) \<le> Time (exPlaying 30 [exPlayer ''a'' 2 0 False, exPlayer ''b'' 3 0 True])
   \<and> Time (exPlaying 30 [exPlayer ''a'' 2 0 False, exPlayer ''b'' 3 0 True]) < 2 ^ 58
   \<and> isCorrectChoice (exPlaying 30 [exPlayer ''a'' 2 0 False, exPlayer ''b'' 3 0 True]) 0
       = Inr True
   \<and> length (getAnsweredPlayers (exPlaying 30 [exPlayer ''a'' 2 0 False, exPlayer ''b'' 3 0 True])) = 1
   \<and> LastAwardedPoints
        (Players (fst (OnPlayerAnswer exX 0 0
           (exPlaying 30 [exPlayer ''a'' 2 0 False, exPlayer ''b'' 3 0 True]))) ! 0) = 4480"
proof -
  let ?g = "exPlaying 30 [exPlayer ''a'' 2 0 False, exPlayer ''b'' 3 0 True]"
  let ?r = "OnPlayerAnswer exX 0 0 ?g"
  have h1: "0 < length (Players ?g)" by (simp add: ex_defs)
  have h2: "- (2 ^ 58) \<le> Time ?g" by (simp add: ex_defs)
  have h3: "Time ?g < 2 ^ 58" by (simp add: ex_defs)
  have h4: "?r = (fst ?r, fst (snd ?r), snd (snd ?r))" by simp
  have c: "isCorrectChoice ?g 0 = Inr True"
    by (simp add: isCorrectChoice_def getCurrentQuestion_def ex_defs)
  have n: "length (getAnsweredPlayers ?g) = 1"
    by (simp add: getAnsweredPlayers_def ex_defs)
  have t: "Time ?g = 30" by (simp add: ex_defs)
  from scoring_formula [OF h1 h2 h3 h4] c n t
  have "LastAwardedPoints (Players (fst ?r) ! 0) = 4480" by simp
  with h1 h2 h3 c n show ?thesis by blast
qed

text \<open>
  Claim C1 as stated: the first respondent of a 60-second question with 30 seconds left
  would be awarded 5500. The code awards 5480.
\<close>

theorem scoring_counterexample:
  "State (exPlaying 30 [exPlayer ''a'' 2 0 False, exPlayer ''b'' 3 0 False]) = PlayState
   \<and> getCurrentQuestion (exPlaying 30 [exPlayer ''a'' 2 0 False, exPlayer ''b'' 3 0 False])
       = Inr exQuestion
   \<and> questionTime exQuestion = 60
   \<and> isCorrectChoice (exPlaying 30 [exPlayer ''a'' 2 0 False, exPlayer ''b'' 3 0 False]) 0
       = Inr True
   \<and> getAnsweredPlayers (exPlaying 30 [exPlayer ''a'' 2 0 False, exPlayer ''b'' 3 0 False]) = []
   \<and> LastAwardedPoints
        (Players (fst (OnPlayerAnswer exX 0 0
           (exPlaying 30 [exPlayer ''a'' 2 0 False, exPlayer ''b'' 3 0 False]))) ! 0) = 5480
   \<and> (5480 :: int) \<noteq> 5500"
  by (simp add: game_defs ex_defs wrap64_def Let_def)

lemmas net_defs =
  step_def OnIncomingMessage_def decodeIncoming_def dispatch_def OnDisconnect_def
  getGameByCode_def getGameByHost_def getGameByPlayer_def gstep_def

lemma digits_ex: "digitsOf 123456 = ''123456''"
  by (simp add: digitsOf.simps [of 123456] digitsOf.simps [of 12345] digitsOf.simps [of 1234]
      digitsOf.simps [of 123] digitsOf.simps [of 12] digitsOf.simps [of 1]
      digitsOf.simps [of "Suc 0"] digitChar_def)

lemma exLobby_eq:
  "exLobby =
     \<lparr>games = [\<lparr> gameId = 7, gameQuiz = exQuiz, CurrentQuestion = - 1, Code = ''123456'',
                  State = LobbyState, Ended = False, Time = 60,
                  Players = [\<lparr> playerId = 7, playerName = ''a'', Connection = 2, Points = 0,
                               LastAwardedPoints = 0, Answered = False \<rparr>],
                  Host = 1, timers = 0 \<rparr>]\<rparr>"
  by (simp add: exLobby_def net_defs game_defs ex_defs Let_def digits_ex)

lemma exOver_eq:
  "exOver =
     \<lparr>games = [\<lparr> gameId = 7, gameQuiz = exQuiz, CurrentQuestion = 1, Code = ''123456'',
                  State = EndState, Ended = True, Time = 60,
                  Players = [\<lparr> playerId = 7, playerName = ''a'', Connection = 2, Points = 0,
                               LastAwardedPoints = 0, Answered = False \<rparr>],
                  Host = 1, timers = 1 \<rparr>]\<rparr>"
  by (simp add: exOver_def exLobby_eq net_defs game_defs ex_defs Let_def wrap64_def)





subsection \<open>Answers outside a question\<close>

text \<open>Where there is a current question, a choice index outside its choices is not
  correct.\<close>

lemma choice_out_of_range:
  assumes "getCurrentQuestion g = Inr q"
    and "choiceIndex < 0 \<or> int (length (Choices q)) \<le> choiceIndex"
  shows "isCorrectChoice g choiceIndex = Inr False"
  using assms by (auto simp: isCorrectChoice_def Let_def)

text \<open>
  Claim C4 at two inputs. In the lobby the current question index is -1, after the last
  question it is the number of questions; \<open>getCurrentQuestion\<close> indexes the questions
  with it, and the answer of a joined player panics in both.
\<close>

theorem answer_outside_question_panics:
  "State (games exLobby ! 0) = LobbyState
   \<and> CurrentQuestion (games exLobby ! 0) = - 1
   \<and> getGameByPlayer exLobby 2 = Some (0, 0)
   \<and> OnIncomingMessage exX 2 (7 # answerJson) exLobby = (exLobby, [], Some IndexOutOfRange)
   \<and> State (games exOver ! 0) = EndState
   \<and> CurrentQuestion (games exOver ! 0) = 1
   \<and> length (Questions (gameQuiz (games exOver ! 0))) = 1
   \<and> OnIncomingMessage exX 2 (7 # answerJson) exOver = (exOver, [], Some IndexOutOfRange)"
  by (simp add: exLobby_eq exOver_eq net_defs game_defs ex_defs Let_def)

subsection \<open>Decoding and encoding\<close>

lemma packetIdToPacket_Some:
  "packetIdToPacket b = Some a \<Longrightarrow>
     b \<in> {0, 1, 5, 7} \<and>
     a = Ptr (if b = 0 then ConnectPacket [] [] else if b = 1 then HostGamePacket []
              else if b = 5 then StartGamePacket else QuestionAnswerPacket 0)"
  by (auto split: if_splits)

lemma packetIdToPacket_None: "packetIdToPacket b = None \<longleftrightarrow> b \<notin> {0, 1, 5, 7}"
  by simp

lemma decodeIncoming_Some:
  assumes "decodeIncoming X msg = Some a"
  shows "2 \<le> length msg \<and> msg ! 0 \<in> {0, 1, 5, 7} \<and>
         (\<exists>p0 p. packetIdToPacket (msg ! 0) = Some (Ptr p0)
                 \<and> unmarshal X (drop 1 msg) p0 = Some p \<and> a = Ptr p)"
proof -
  have len: "2 \<le> length msg"
    using assms by (cases "length msg < 2") (simp_all add: decodeIncoming_def)
  then obtain a0 where a0: "packetIdToPacket (msg ! 0) = Some a0"
    using assms by (cases "packetIdToPacket (msg ! 0)") (simp_all add: decodeIncoming_def Let_def)
  from packetIdToPacket_Some [OF a0] obtain p0 where p0: "a0 = Ptr p0" and tag: "msg ! 0 \<in> {0, 1, 5, 7}"
    by blast
  from assms len a0 p0 obtain p where "unmarshal X (drop 1 msg) p0 = Some p" and "a = Ptr p"
    by (cases "unmarshal X (drop 1 msg) p0") (simp_all add: decodeIncoming_def Let_def)
  with len tag a0 p0 show ?thesis by blast
qed




lemma exX_fillsGiven: "fillsGiven exX"
  by (auto simp: fillsGiven_def exX_def exUnmarshal_def split: packet.splits if_splits)

text \<open>
  Claim C2, as the code has it. \<open>packetToPacketId\<close> knows the eight kinds the server
  sends. What the decoder returns is a pointer, which the encoder rejects as an invalid
  packet type; the Connect, StartGame and QuestionAnswer structs themselves are rejected
  too. Of the kinds the server receives only the HostGame struct can be encoded: the
  result is the byte 1 followed by its JSON, and where \<open>json.Unmarshal\<close> reads that
  JSON back, decoding the result gives the same packet.
\<close>

theorem reencode_decoded:
  assumes "fillsGiven X" and "decodeIncoming X msg = Some a"
  shows "\<exists>p. a = Ptr p
     \<and> PacketToBytes X a = Inl InvalidPacketType
     \<and> (msg ! 0 \<in> {0, 5, 7} \<longrightarrow> PacketToBytes X (Val p) = Inl InvalidPacketType)
     \<and> (msg ! 0 = 1 \<longrightarrow>
          (\<exists>q. p = HostGamePacket q) \<and>
          (\<forall>bytes. marshal X (Val p) = Some bytes \<longrightarrow>
             PacketToBytes X (Val p) = Inr (1 # bytes)
             \<and> (bytes \<noteq> [] \<and> unmarshal X bytes (HostGamePacket []) = Some p \<longrightarrow>
                  decodeIncoming X (1 # bytes) = Some (Ptr p))))"
proof -
  from decodeIncoming_Some [OF assms(2)] obtain p0 p where
    tag: "msg ! 0 \<in> {0, 1, 5, 7}" and p0: "packetIdToPacket (msg ! 0) = Some (Ptr p0)"
    and u: "unmarshal X (drop 1 msg) p0 = Some p" and a: "a = Ptr p"
    by blast
  have k: "sameKind p0 p"
    using assms(1) u unfolding fillsGiven_def by blast
  have ptr: "PacketToBytes X (Ptr p) = Inl InvalidPacketType"
    by (simp add: PacketToBytes_def)
  have other: "msg ! 0 \<in> {0, 5, 7} \<Longrightarrow> PacketToBytes X (Val p) = Inl InvalidPacketType"
    using p0 k by (cases p) (auto simp: PacketToBytes_def split: if_splits)
  have host: "msg ! 0 = 1 \<Longrightarrow> \<exists>q. p = HostGamePacket q"
    using p0 k by (cases p) (auto split: if_splits)
  have enc: "marshal X (Val p) = Some bytes \<Longrightarrow> p = HostGamePacket q \<Longrightarrow>
      PacketToBytes X (Val p) = Inr (1 # bytes)" for bytes q
    by (simp add: PacketToBytes_def)
  have dec: "bytes \<noteq> [] \<Longrightarrow> unmarshal X bytes (HostGamePacket []) = Some p \<Longrightarrow>
      decodeIncoming X (1 # bytes) = Some (Ptr p)" for bytes
    by (cases bytes) (simp_all add: decodeIncoming_def Let_def)
  show ?thesis
    using a ptr other host enc dec by blast
qed

text \<open>The theorem at a HostGame request.\<close>

theorem reencode_decoded_witness:
  "fillsGiven exX
   \<and> decodeIncoming exX (1 # hostJson) = Some (Ptr (HostGamePacket exQuizId))
   \<and> PacketToBytes exX (Ptr (HostGamePacket exQuizId)) = Inl InvalidPacketType
   \<and> PacketToBytes exX (Val (HostGamePacket exQuizId)) = Inr (1 # hostJson)"
proof -
  have d: "decodeIncoming exX (1 # hostJson) = Some (Ptr (HostGamePacket exQuizId))"
    by (simp add: decodeIncoming_def ex_defs)
  have m: "marshal exX (Val (HostGamePacket exQuizId)) = Some hostJson"
    by (simp add: exX_def exMarshal_def)
  have t: "(1 # hostJson) ! 0 = 1" by simp
  from reencode_decoded [OF exX_fillsGiven d] t m
  have "PacketToBytes exX (Ptr (HostGamePacket exQuizId)) = Inl InvalidPacketType
        \<and> PacketToBytes exX (Val (HostGamePacket exQuizId)) = Inr (1 # hostJson)"
    by blast
  with exX_fillsGiven d show ?thesis by blast
qed

text \<open>
  Claim C2 as stated: an accepted StartGame message decodes, and the decoded packet
  cannot be encoded again, neither as the pointer the decoder returns nor as the struct.
\<close>

theorem reencode_counterexample:
  "decodeIncoming exX (5 # emptyJson) = Some (Ptr StartGamePacket)
   \<and> PacketToBytes exX (Ptr StartGamePacket) = Inl InvalidPacketType
   \<and> PacketToBytes exX (Val StartGamePacket) = Inl InvalidPacketType"
  by (simp add: decodeIncoming_def PacketToBytes_def ex_defs)

subsection \<open>Leaderboard and roster\<close>

lemma mset_insertLess: "mset (insertLess lt x ys) = add_mset x (mset ys)"
  by (induction ys) simp_all

lemma set_insertLess: "set (insertLess lt x ys) = insert x (set ys)"
  by (induction ys) auto

lemma sorted_insertLess:
  "sorted_wrt (\<lambda>a b. \<not> Points b > Points a) ys \<Longrightarrow>
   sorted_wrt (\<lambda>a b. \<not> Points b > Points a) (insertLess (\<lambda>a b. Points a > Points b) x ys)"
  by (induction ys) (auto simp: set_insertLess)

lemma mset_foldr_insertLess: "mset (foldr (insertLess lt) xs []) = mset xs"
  by (induction xs) (simp_all add: mset_insertLess)

lemma sorted_foldr_insertLess:
  "sorted_wrt (\<lambda>a b. \<not> Points b > Points a) (foldr (insertLess (\<lambda>a b. Points a > Points b)) xs [])"
  by (induction xs) (simp_all add: sorted_insertLess)

lemma insertionSort_sliceSorted: "sliceSorted (X\<lparr>sortSlice := insertionSort\<rparr>) xs"
  by (simp add: sliceSorted_def insertionSort_def mset_foldr_insertLess sorted_foldr_insertLess)

lemma reversingSort_sliceSorted: "sliceSorted (X\<lparr>sortSlice := reversingSort\<rparr>) xs"
  by (simp add: sliceSorted_def reversingSort_def mset_foldr_insertLess sorted_foldr_insertLess)

lemma getLeaderboard_fst:
  "fst (getLeaderboard X g) = g\<lparr>Players := sortSlice X (\<lambda>a b. Points a > Points b) (Players g)\<rparr>"
  by (simp add: getLeaderboard_def Let_def)






lemma OnPlayerJoin_fst:
  "fst (OnPlayerJoin X name con g) =
     g\<lparr>Players := Players g @ [\<lparr> playerId = newUuid X, playerName = name, Connection = con,
                                   Points = 0, LastAwardedPoints = 0, Answered = False \<rparr>]\<rparr>"
  by (simp add: OnPlayerJoin_def Let_def)

text \<open>
  Claim C7, as the code has it. A join appends the new player at the end of the roster.
  \<open>getLeaderboard\<close> is not read-only: it replaces the roster by what \<open>sort.Slice\<close>
  makes of it, the same players ordered by descending points, and changes no other
  field of the game. The other queries (\<open>getAnsweredPlayers\<close>, \<open>getCurrentQuestion\<close>,
  \<open>isCorrectChoice\<close>, \<open>getPointsReward\<close>) return a value and no game.
\<close>

theorem roster_join_and_sort:
  "Players (fst (OnPlayerJoin X name con g)) =
     Players g @ [\<lparr> playerId = newUuid X, playerName = name, Connection = con,
                    Points = 0, LastAwardedPoints = 0, Answered = False \<rparr>]
   \<and> fst (getLeaderboard X g) =
       g\<lparr>Players := sortSlice X (\<lambda>a b. Points a > Points b) (Players g)\<rparr>
   \<and> (sliceSorted X (Players g) \<longrightarrow>
        mset (Players (fst (getLeaderboard X g))) = mset (Players g)
        \<and> sorted_wrt (\<lambda>a b. Points b \<le> Points a) (Players (fst (getLeaderboard X g))))"
proof -
  have "sliceSorted X (Players g) \<Longrightarrow>
        mset (Players (fst (getLeaderboard X g))) = mset (Players g)
        \<and> sorted_wrt (\<lambda>a b. Points b \<le> Points a) (Players (fst (getLeaderboard X g)))"
    by (simp add: sliceSorted_def Let_def getLeaderboard_fst not_less)
  then show ?thesis
    by (simp add: OnPlayerJoin_fst getLeaderboard_fst)
qed

text \<open>The theorem at a roster of two players.\<close>

theorem roster_join_and_sort_witness:
  "sliceSorted exX (Players (exPlaying 30 [exPlayer ''a'' 2 0 True, exPlayer ''b'' 3 100 True]))
   \<and> mset (Players (fst (getLeaderboard exX
        (exPlaying 30 [exPlayer ''a'' 2 0 True, exPlayer ''b'' 3 100 True]))))
       = mset [exPlayer ''a'' 2 0 True, exPlayer ''b'' 3 100 True]"
proof -
  let ?g = "exPlaying 30 [exPlayer ''a'' 2 0 True, exPlayer ''b'' 3 100 True]"
  have h: "sliceSorted exX (Players ?g)"
    by (simp add: sliceSorted_def ex_defs Let_def)
  have p: "Players ?g = [exPlayer ''a'' 2 0 True, exPlayer ''b'' 3 100 True]"
    by (simp add: exPlaying_def)
  from roster_join_and_sort [of exX _ _ ?g] h
  have "mset (Players (fst (getLeaderboard exX ?g))) = mset (Players ?g)"
    by blast
  with h show ?thesis unfolding p by blast
qed

text \<open>
  Claim C7 as stated: computing the leaderboard would leave the order of the roster
  unchanged. Player \<open>a\<close> joined before player \<open>b\<close> and has fewer points; after
  \<open>getLeaderboard\<close>, and so after the tick that ends a Reveal state, \<open>b\<close> stands
  before \<open>a\<close> in the roster.
\<close>

theorem roster_order_counterexample:
  "map playerName (Players (exPlaying 30 [exPlayer ''a'' 2 0 True, exPlayer ''b'' 3 100 True]))
     = [''a'', ''b'']
   \<and> map playerName (Players (fst (getLeaderboard exX
        (exPlaying 30 [exPlayer ''a'' 2 0 True, exPlayer ''b'' 3 100 True]))))
     = [''b'', ''a'']
   \<and> map playerName (Players (fst (Tick exX
        ((exPlaying 1 [exPlayer ''a'' 2 0 True, exPlayer ''b'' 3 100 True])
           \<lparr>State := RevealState\<rparr>))))
     = [''b'', ''a'']"
  by (simp add: game_defs ex_defs Let_def wrap64_def split_beta)

subsection \<open>What each operation changes and sends\<close>

lemma SendPacket_out:
  assumes "m \<in> set (fst (SendPacket X c a))"
  shows "fst m = c \<and> (\<exists>t. packetToPacketId a = Inr t \<and> tagOf m = Some t)"
  using assms
  by (auto simp: SendPacket_def PacketToBytes_def tagOf_def split: sum.splits option.splits)

lemma sendEach_out:
  assumes "m \<in> set (fst (sendEach X cs a))"
  shows "\<exists>t. packetToPacketId a = Inr t \<and> tagOf m = Some t"
  using assms
proof (induction cs)
  case Nil
  then show ?case by simp
next
  case (Cons c cs)
  then show ?case
    by (auto simp: split_beta Let_def dest: SendPacket_out split: if_splits)
qed

lemma BroadcastPacket_out:
  assumes "m \<in> set (fst (BroadcastPacket X g a h))"
  shows "\<exists>t. packetToPacketId a = Inr t \<and> tagOf m = Some t"
  using assms
  by (auto simp: BroadcastPacket_def split_beta Let_def dest: SendPacket_out sendEach_out
      split: if_splits)

lemma ChangeState_out: "m \<in> set (snd (ChangeState X st g)) \<Longrightarrow> tagOf m = Some 3"
  by (auto simp: ChangeState_def Let_def dest: BroadcastPacket_out)

lemma End_fst: "fst (End X g) = g\<lparr>Ended := True, State := EndState\<rparr>"
  by (simp add: End_def ChangeState_fst)

lemma End_out: "m \<in> set (snd (End X g)) \<Longrightarrow> tagOf m = Some 3"
  by (simp add: End_def ChangeState_out)

lemma revealPlayer_out: "m \<in> set (snd (revealPlayer X p)) \<Longrightarrow> tagOf m = Some 8"
  by (auto simp: revealPlayer_def Let_def dest: SendPacket_out)

lemma Reveal_out: "m \<in> set (snd (Reveal X g)) \<Longrightarrow> tagOf m = Some 8 \<or> tagOf m = Some 3"
  by (auto simp: Reveal_def Let_def split_beta dest: revealPlayer_out ChangeState_out)

lemma Intermission_fst:
  "fst (Intermission X g) =
     g\<lparr>Time := 30, State := IntermissionState,
       Players := sortSlice X (\<lambda>a b. Points a > Points b) (Players g)\<rparr>"
  by (simp add: Intermission_def Let_def split_beta ChangeState_fst getLeaderboard_fst)

lemma Intermission_out:
  "m \<in> set (snd (Intermission X g)) \<Longrightarrow> tagOf m = Some 3 \<or> tagOf m = Some 9"
  by (auto simp: Intermission_def Let_def split_beta dest: ChangeState_out SendPacket_out)

text \<open>The fields of the game after \<open>NextQuestion\<close>.\<close>

lemma NextQuestion_index:
  "CurrentQuestion (fst (NextQuestion X g)) = wrap64 (CurrentQuestion g + 1)"
  by (simp add: NextQuestion_def Let_def split_beta End_fst ChangeState_fst
      ResetPlayerAnswerStates_def getCurrentQuestion_def)

lemma NextQuestion_State:
  "State (fst (NextQuestion X g)) =
     (if int (length (Questions (gameQuiz g))) \<le> wrap64 (CurrentQuestion g + 1)
      then EndState else PlayState)"
  by (simp add: NextQuestion_def Let_def split_beta End_fst ChangeState_fst
      ResetPlayerAnswerStates_def getCurrentQuestion_def)

lemma NextQuestion_Ended:
  "Ended (fst (NextQuestion X g)) =
     (Ended g \<or> int (length (Questions (gameQuiz g))) \<le> wrap64 (CurrentQuestion g + 1))"
  by (simp add: NextQuestion_def Let_def split_beta End_fst ChangeState_fst
      ResetPlayerAnswerStates_def getCurrentQuestion_def)

lemma NextQuestion_const:
  "Host (fst (NextQuestion X g)) = Host g \<and> gameQuiz (fst (NextQuestion X g)) = gameQuiz g
   \<and> timers (fst (NextQuestion X g)) = timers g"
  by (simp add: NextQuestion_def Let_def split_beta End_fst ChangeState_fst
      ResetPlayerAnswerStates_def getCurrentQuestion_def)

lemma NextQuestion_out:
  assumes "m \<in> set (fst (snd (NextQuestion X g)))"
  shows "tagOf m = Some 3 \<or> (tagOf m = Some 2 \<and> fst m = Host g)"
  using assms
  by (auto simp: NextQuestion_def Let_def split_beta ChangeState_fst ResetPlayerAnswerStates_def
      dest: End_out ChangeState_out SendPacket_out split: if_splits sum.splits)

lemma gameInv_newGame: "gameInv (newGame X quiz host)"
  by (simp add: gameInv_def newGame_def)

lemma gameInv_cong:
  assumes "CurrentQuestion g' = CurrentQuestion g" and "State g' = State g"
    and "Ended g' = Ended g" and "gameQuiz g' = gameQuiz g"
  shows "gameInv g' = gameInv g"
  by (simp add: gameInv_def assms)

lemma wrap64_succ:
  assumes "- 1 \<le> x" and "x < 2 ^ 63 - 1"
  shows "wrap64 (x + 1) = x + 1"
proof (rule wrap64_id)
  show "- (2 ^ 63) \<le> x + 1" using assms(1) by simp
  show "x + 1 < 2 ^ 63" using assms(2) by simp
qed

lemma inv_NextQuestion:
  assumes "gameInv g" and "CurrentQuestion g < 2 ^ 63 - 1"
  shows "gameInv (fst (NextQuestion X g))
         \<and> CurrentQuestion (fst (NextQuestion X g)) = CurrentQuestion g + 1"
proof -
  have lo: "- 1 \<le> CurrentQuestion g" using assms(1) by (simp add: gameInv_def)
  have w: "wrap64 (CurrentQuestion g + 1) = CurrentQuestion g + 1"
    using lo assms(2) by (rule wrap64_succ)
  show ?thesis
    using assms(1) lo
    by (auto simp: gameInv_def NextQuestion_index NextQuestion_State NextQuestion_Ended
        NextQuestion_const w)
qed

lemma inv_Reveal:
  assumes "gameInv g" and "State g \<noteq> EndState"
  shows "gameInv (fst (Reveal X g))"
  using assms by (simp add: gameInv_def Reveal_fst)

lemma inv_Intermission:
  assumes "gameInv g" and "State g \<noteq> EndState"
  shows "gameInv (fst (Intermission X g))"
  using assms by (simp add: gameInv_def Intermission_fst)

lemma Tick_fst:
  "fst (Tick X g) =
     (if wrap64 (Time g - 1) = 0
      then (case State g of
              PlayState \<Rightarrow> fst (Reveal X (g\<lparr>Time := 0\<rparr>))
            | RevealState \<Rightarrow> fst (Intermission X (g\<lparr>Time := 0\<rparr>))
            | IntermissionState \<Rightarrow> fst (NextQuestion X (g\<lparr>Time := 0\<rparr>))
            | _ \<Rightarrow> g\<lparr>Time := 0\<rparr>)
      else g\<lparr>Time := wrap64 (Time g - 1)\<rparr>)"
  by (simp add: Tick_def Let_def split_beta split: GameState.splits)

lemma inv_Time: "gameInv (g\<lparr>Time := t\<rparr>) = gameInv g"
  by (simp add: gameInv_def)

lemma inv_Tick:
  assumes "gameInv g" and "CurrentQuestion g < 2 ^ 63 - 1"
  shows "gameInv (fst (Tick X g))
         \<and> CurrentQuestion g \<le> CurrentQuestion (fst (Tick X g))
         \<and> CurrentQuestion (fst (Tick X g)) \<le> CurrentQuestion g + 1"
proof (cases "wrap64 (Time g - 1) = 0")
  case False
  then show ?thesis using assms(1) by (simp add: Tick_fst inv_Time)
next
  case True
  have i: "gameInv (g\<lparr>Time := 0\<rparr>)" using assms(1) by (simp add: inv_Time)
  show ?thesis
  proof (cases "State g")
    case PlayState
    then show ?thesis using True inv_Reveal [OF i, of X] by (simp add: Tick_fst Reveal_fst)
  next
    case RevealState
    then show ?thesis
      using True inv_Intermission [OF i, of X] by (simp add: Tick_fst Intermission_fst)
  next
    case IntermissionState
    then show ?thesis
      using True inv_NextQuestion [OF i, of X] assms(2) by (simp add: Tick_fst)
  next
    case LobbyState
    then show ?thesis using True i by (simp add: Tick_fst)
  next
    case EndState
    then show ?thesis using True i by (simp add: Tick_fst)
  qed
qed

lemma Tick_const:
  "Host (fst (Tick X g)) = Host g \<and> gameQuiz (fst (Tick X g)) = gameQuiz g"
  by (simp add: Tick_fst Reveal_fst Intermission_fst NextQuestion_const split: GameState.splits)

lemma Tick_out:
  assumes "m \<in> set (fst (snd (Tick X g)))" and "tagOf m = Some 2"
  shows "fst m = Host g"
  using assms
  by (auto simp: Tick_def Let_def split_beta
      dest!: SendPacket_out Reveal_out Intermission_out NextQuestion_out
      split: if_splits GameState.splits)

lemma inv_timers: "gameInv (g\<lparr>timers := n\<rparr>) = gameInv g"
  by (simp add: gameInv_def)

lemma Start_fst:
  "fst (Start X g) =
     (let r = NextQuestion X (g\<lparr>State := PlayState\<rparr>)
      in case snd (snd r) of
           Some err \<Rightarrow> fst r
         | None \<Rightarrow> (fst r)\<lparr>timers := Suc (timers (fst r))\<rparr>)"
  by (simp add: Start_def Let_def split_beta ChangeState_fst split: option.splits)

lemma inv_Start:
  assumes "gameInv g" and "CurrentQuestion g < 2 ^ 63 - 1" and "State g = LobbyState"
  shows "gameInv (fst (Start X g))
         \<and> CurrentQuestion (fst (Start X g)) = CurrentQuestion g + 1"
proof -
  have i: "gameInv (g\<lparr>State := PlayState\<rparr>)"
    using assms(1,3) by (simp add: gameInv_def)
  have c: "CurrentQuestion (g\<lparr>State := PlayState\<rparr>) < 2 ^ 63 - 1"
    using assms(2) by simp
  let ?n = "fst (NextQuestion X (g\<lparr>State := PlayState\<rparr>))"
  from inv_NextQuestion [OF i c, of X]
  have n: "gameInv ?n" and k: "CurrentQuestion ?n = CurrentQuestion g + 1"
    by simp_all
  have "fst (Start X g) = ?n \<or> fst (Start X g) = ?n\<lparr>timers := Suc (timers ?n)\<rparr>"
    by (simp add: Start_fst Let_def split: option.splits)
  then show ?thesis
    using n k by (auto simp: inv_timers)
qed

lemma Start_const:
  "Host (fst (Start X g)) = Host g \<and> gameQuiz (fst (Start X g)) = gameQuiz g"
  by (simp add: Start_fst Let_def NextQuestion_const split: option.splits)

lemma Start_out:
  assumes "m \<in> set (fst (snd (Start X g)))" and "tagOf m = Some 2"
  shows "fst m = Host g"
proof -
  have h: "Host (fst (ChangeState X PlayState g)) = Host g"
    by (simp add: ChangeState_fst)
  show ?thesis
    using assms h
    by (auto simp: Start_def Let_def split_beta dest!: ChangeState_out NextQuestion_out
        split: option.splits)
qed

lemma inv_StartOrSkip:
  assumes "gameInv g" and "CurrentQuestion g < 2 ^ 63 - 1"
  shows "gameInv (fst (StartOrSkip X g))
         \<and> CurrentQuestion (fst (StartOrSkip X g)) = CurrentQuestion g + 1"
  using inv_Start [OF assms, of X] inv_NextQuestion [OF assms, of X]
  by (simp add: StartOrSkip_def)

lemma OnPlayerAnswer_fault:
  assumes "getCurrentQuestion g = Inl err"
  shows "OnPlayerAnswer X choice i g = (g, [], Some err)"
  using assms by (simp add: OnPlayerAnswer_def isCorrectChoice_def)

lemma getCurrentQuestion_Inl:
  "getCurrentQuestion g = Inl err \<longleftrightarrow>
     err = IndexOutOfRange
     \<and> (CurrentQuestion g < 0 \<or> int (length (Questions (gameQuiz g))) \<le> CurrentQuestion g)"
  by (auto simp: getCurrentQuestion_def)

lemma OnPlayerAnswer_fst:
  assumes "getCurrentQuestion g = Inr q"
  shows "\<exists>ps. fst (OnPlayerAnswer X choice i g) = g\<lparr>Players := ps\<rparr>
             \<or> fst (OnPlayerAnswer X choice i g) = fst (Reveal X (g\<lparr>Players := ps\<rparr>))"
  using assms
  by (auto simp: OnPlayerAnswer_def isCorrectChoice_def Let_def split_beta)

lemma inv_Players: "gameInv (g\<lparr>Players := ps\<rparr>) = gameInv g"
  by (simp add: gameInv_def)

lemma inv_OnPlayerAnswer:
  assumes "gameInv g"
  shows "gameInv (fst (OnPlayerAnswer X choice i g))
         \<and> CurrentQuestion (fst (OnPlayerAnswer X choice i g)) = CurrentQuestion g
         \<and> gameQuiz (fst (OnPlayerAnswer X choice i g)) = gameQuiz g
         \<and> Host (fst (OnPlayerAnswer X choice i g)) = Host g"
proof (cases "getCurrentQuestion g")
  case (Inl err)
  then show ?thesis using assms by (simp add: OnPlayerAnswer_fault)
next
  case (Inr q)
  then have valid: "0 \<le> CurrentQuestion g
      \<and> CurrentQuestion g < int (length (Questions (gameQuiz g)))"
    by (simp add: getCurrentQuestion_def split: if_splits)
  then have ne: "State g \<noteq> EndState"
    using assms by (auto simp: gameInv_def)
  from OnPlayerAnswer_fst [OF Inr, of X choice i] obtain ps where
    "fst (OnPlayerAnswer X choice i g) = g\<lparr>Players := ps\<rparr>
     \<or> fst (OnPlayerAnswer X choice i g) = fst (Reveal X (g\<lparr>Players := ps\<rparr>))"
    by blast
  then show ?thesis
  proof
    assume "fst (OnPlayerAnswer X choice i g) = g\<lparr>Players := ps\<rparr>"
    then show ?thesis using assms by (simp add: inv_Players)
  next
    assume r: "fst (OnPlayerAnswer X choice i g) = fst (Reveal X (g\<lparr>Players := ps\<rparr>))"
    have "gameInv (fst (Reveal X (g\<lparr>Players := ps\<rparr>)))"
      using assms ne by (intro inv_Reveal) (simp_all add: inv_Players)
    then show ?thesis by (simp add: r Reveal_fst)
  qed
qed

lemma OnPlayerAnswer_out:
  assumes "m \<in> set (fst (snd (OnPlayerAnswer X choice i g)))"
  shows "tagOf m = Some 8 \<or> tagOf m = Some 3"
  using assms
  by (auto simp: OnPlayerAnswer_def Let_def split_beta dest!: Reveal_out
      split: sum.splits if_splits)

lemma OnPlayerJoin_out:
  assumes "m \<in> set (snd (OnPlayerJoin X name con g))"
  shows "tagOf m = Some 3 \<or> tagOf m = Some 4"
  using assms by (auto simp: OnPlayerJoin_def Let_def dest!: SendPacket_out)

lemma OnPlayerDisconnect_fst:
  "fst (OnPlayerDisconnect X player g) =
     g\<lparr>Players := filter (\<lambda>p. playerId p \<noteq> playerId player) (Players g)\<rparr>"
  by (simp add: OnPlayerDisconnect_def Let_def)

lemma OnPlayerDisconnect_out:
  assumes "m \<in> set (snd (OnPlayerDisconnect X player g))"
  shows "tagOf m = Some 10"
  using assms by (auto simp: OnPlayerDisconnect_def Let_def dest!: SendPacket_out)

text \<open>One event: the invariant, the index, the quiz and the host.\<close>

lemma gstep_inv:
  assumes "gameInv g" and "CurrentQuestion g < 2 ^ 63 - 1"
  shows "gameInv (fst (gstep X ev g))
         \<and> CurrentQuestion g \<le> CurrentQuestion (fst (gstep X ev g))
         \<and> CurrentQuestion (fst (gstep X ev g)) \<le> CurrentQuestion g + 1"
proof (cases ev)
  case EvStartOrSkip
  then show ?thesis using inv_StartOrSkip [OF assms, of X] by (simp add: gstep_def)
next
  case EvTimer
  then show ?thesis
    using inv_Tick [OF assms, of X] assms(1)
    by (simp add: gstep_def timerIteration_def inv_timers)
next
  case (EvAnswer choice i)
  then show ?thesis
    using inv_OnPlayerAnswer [OF assms(1), of X choice i] assms(1) by (simp add: gstep_def)
next
  case (EvJoin name con)
  then show ?thesis
    using assms(1) by (simp add: gstep_def split_beta OnPlayerJoin_fst inv_Players)
next
  case (EvDisconnect i)
  then show ?thesis
    using assms(1) by (simp add: gstep_def split_beta OnPlayerDisconnect_fst inv_Players)
qed

lemma gstep_const:
  "Host (fst (gstep X ev g)) = Host g \<and> gameQuiz (fst (gstep X ev g)) = gameQuiz g"
proof (cases ev)
  case EvStartOrSkip
  then show ?thesis by (simp add: gstep_def StartOrSkip_def Start_const NextQuestion_const)
next
  case EvTimer
  then show ?thesis by (simp add: gstep_def timerIteration_def Tick_const)
next
  case (EvAnswer choice i)
  show ?thesis
  proof (cases "getCurrentQuestion g")
    case (Inl err)
    then show ?thesis using EvAnswer by (simp add: gstep_def OnPlayerAnswer_fault)
  next
    case (Inr q)
    from OnPlayerAnswer_fst [OF Inr, of X choice i] show ?thesis
      using EvAnswer by (auto simp: gstep_def Reveal_fst)
  qed
next
  case (EvJoin name con)
  then show ?thesis by (simp add: gstep_def split_beta OnPlayerJoin_fst)
next
  case (EvDisconnect i)
  then show ?thesis by (simp add: gstep_def split_beta OnPlayerDisconnect_fst)
qed

lemma gstep_out:
  assumes "m \<in> set (fst (snd (gstep X ev g)))" and "tagOf m = Some 2"
  shows "fst m = Host g"
proof (cases ev)
  case EvStartOrSkip
  then show ?thesis
    using assms Start_out [of m X g] NextQuestion_out [of m X g]
    by (auto simp: gstep_def StartOrSkip_def split: if_splits)
next
  case EvTimer
  then show ?thesis
    using assms Tick_out [of m X g]
    by (auto simp: gstep_def timerIteration_def split: if_splits)
next
  case (EvAnswer choice i)
  then show ?thesis
    using assms OnPlayerAnswer_out [of m X choice i g]
    by (auto simp: gstep_def split: if_splits)
next
  case (EvJoin name con)
  then show ?thesis
    using assms OnPlayerJoin_out [of m X name con g]
    by (auto simp: gstep_def split_beta)
next
  case (EvDisconnect i)
  then show ?thesis
    using assms OnPlayerDisconnect_out [of m X "Players g ! i" g]
    by (auto simp: gstep_def split_beta split: if_splits)
qed

subsection \<open>Runs of one game\<close>

lemma grun_fst_Cons: "fst (grun ((X, ev) # es) g) = fst (grun es (fst (gstep X ev g)))"
  by (simp add: split_beta)

lemma grun_snd_Cons:
  "snd (grun ((X, ev) # es) g) = fst (snd (gstep X ev g)) @ snd (grun es (fst (gstep X ev g)))"
  by (simp add: split_beta)

lemma grun_fst_append: "fst (grun (es1 @ es2) g) = fst (grun es2 (fst (grun es1 g)))"
proof (induction es1 arbitrary: g)
  case Nil
  then show ?case by simp
next
  case (Cons a es1)
  obtain X ev where a: "a = (X, ev)" by (cases a)
  show ?case using Cons.IH by (simp add: a split_beta)
qed

lemma grun_inv:
  assumes "gameInv g" and "CurrentQuestion g + int (length es) < 2 ^ 63"
  shows "gameInv (fst (grun es g))
         \<and> CurrentQuestion g \<le> CurrentQuestion (fst (grun es g))
         \<and> CurrentQuestion (fst (grun es g)) \<le> CurrentQuestion g + int (length es)"
  using assms
proof (induction es arbitrary: g)
  case Nil
  then show ?case by simp
next
  case (Cons a es)
  obtain X ev where a: "a = (X, ev)" by (cases a)
  let ?g1 = "fst (gstep X ev g)"
  have small: "CurrentQuestion g < 2 ^ 63 - 1"
    using Cons.prems(2) by simp
  from gstep_inv [OF Cons.prems(1) small, of X ev]
  have i1: "gameInv ?g1" and lo: "CurrentQuestion g \<le> CurrentQuestion ?g1"
    and hi: "CurrentQuestion ?g1 \<le> CurrentQuestion g + 1"
    by simp_all
  have b: "CurrentQuestion ?g1 + int (length es) < 2 ^ 63"
    using hi Cons.prems(2) by simp
  from Cons.IH [OF i1 b]
  have i2: "gameInv (fst (grun es ?g1))"
    and lo2: "CurrentQuestion ?g1 \<le> CurrentQuestion (fst (grun es ?g1))"
    and hi2: "CurrentQuestion (fst (grun es ?g1)) \<le> CurrentQuestion ?g1 + int (length es)"
    by simp_all
  show ?case
    using i2 lo lo2 hi hi2 by (simp add: a grun_fst_Cons del: grun.simps)
qed

lemma grun_const:
  "Host (fst (grun es g)) = Host g \<and> gameQuiz (fst (grun es g)) = gameQuiz g"
proof (induction es arbitrary: g)
  case Nil
  then show ?case by simp
next
  case (Cons a es)
  obtain X ev where a: "a = (X, ev)" by (cases a)
  show ?case using Cons.IH [of "fst (gstep X ev g)"] by (simp add: a grun_fst_Cons gstep_const del: grun.simps)
qed

lemma grun_out:
  assumes "m \<in> set (snd (grun es g))" and "tagOf m = Some 2"
  shows "fst m = Host g"
  using assms
proof (induction es arbitrary: g)
  case Nil
  then show ?case by simp
next
  case (Cons a es)
  obtain X ev where a: "a = (X, ev)" by (cases a)
  from Cons.prems(1) have "m \<in> set (fst (snd (gstep X ev g)))
      \<or> m \<in> set (snd (grun es (fst (gstep X ev g))))"
    by (simp add: a grun_snd_Cons del: grun.simps)
  then show ?case
  proof
    assume "m \<in> set (fst (snd (gstep X ev g)))"
    then show ?thesis using Cons.prems(2) by (rule gstep_out)
  next
    assume "m \<in> set (snd (grun es (fst (gstep X ev g))))"
    then have "fst m = Host (fst (gstep X ev g))" using Cons.prems(2) by (rule Cons.IH)
    then show ?thesis by (simp add: gstep_const)
  qed
qed

text \<open>
  Claim C3, as the code has it. In a run of fewer than \<open>2 ^ 63\<close> events on a new
  game, whatever the events and the externals: the question index starts at -1; it
  never decreases from one moment of the run to a later one; while the state is not
  End it is -1 or a valid index into the questions of the quiz; in the End state it is
  at least the number of questions; and it is smaller than the number of events so far.
  It is not bounded by the number of questions.
\<close>

theorem question_index_over_a_run:
  assumes "int (length es1) + int (length es2) < 2 ^ 63"
  shows "CurrentQuestion (newGame X quiz host) = - 1
    \<and> CurrentQuestion (fst (grun es1 (newGame X quiz host)))
        \<le> CurrentQuestion (fst (grun (es1 @ es2) (newGame X quiz host)))
    \<and> (State (fst (grun es1 (newGame X quiz host))) \<noteq> EndState \<longrightarrow>
         CurrentQuestion (fst (grun es1 (newGame X quiz host))) = - 1
         \<or> (0 \<le> CurrentQuestion (fst (grun es1 (newGame X quiz host)))
             \<and> CurrentQuestion (fst (grun es1 (newGame X quiz host)))
                 < int (length (Questions quiz))))
    \<and> (State (fst (grun es1 (newGame X quiz host))) = EndState \<longrightarrow>
         int (length (Questions quiz)) \<le> CurrentQuestion (fst (grun es1 (newGame X quiz host))))
    \<and> CurrentQuestion (fst (grun es1 (newGame X quiz host))) < int (length es1)"
proof -
  let ?g0 = "newGame X quiz host"
  let ?g1 = "fst (grun es1 ?g0)"
  have start: "CurrentQuestion ?g0 = - 1" by (simp add: newGame_def)
  have q0: "gameQuiz ?g0 = quiz" by (simp add: newGame_def)
  have b1: "CurrentQuestion ?g0 + int (length es1) < 2 ^ 63"
    using assms by (simp add: start)
  from grun_inv [OF gameInv_newGame b1]
  have i1: "gameInv ?g1" and hi1: "CurrentQuestion ?g1 \<le> CurrentQuestion ?g0 + int (length es1)"
    by simp_all
  have q1: "gameQuiz ?g1 = quiz" using grun_const [of es1 ?g0] q0 by simp
  have b2: "CurrentQuestion ?g1 + int (length es2) < 2 ^ 63"
    using hi1 assms by (simp add: start)
  from grun_inv [OF i1 b2]
  have mono: "CurrentQuestion ?g1 \<le> CurrentQuestion (fst (grun es2 ?g1))" by simp
  have lt: "CurrentQuestion ?g1 < int (length es1)"
    using hi1 by (simp add: start)
  show ?thesis
    using start mono i1 lt by (simp add: grun_fst_append gameInv_def q1)
qed

text \<open>The theorem at the start of a game on a quiz of one question, and one skip
  later.\<close>

theorem question_index_over_a_run_witness:
  "int (length [(exX, EvStartOrSkip)]) + int (length [(exX, EvStartOrSkip)]) < 2 ^ 63
   \<and> State (fst (grun [(exX, EvStartOrSkip)] (newGame exX exQuiz 1))) \<noteq> EndState
   \<and> CurrentQuestion (fst (grun [(exX, EvStartOrSkip)] (newGame exX exQuiz 1)))
       \<le> CurrentQuestion (fst (grun ([(exX, EvStartOrSkip)] @ [(exX, EvStartOrSkip)])
                                (newGame exX exQuiz 1)))
   \<and> (CurrentQuestion (fst (grun [(exX, EvStartOrSkip)] (newGame exX exQuiz 1))) = - 1
       \<or> (0 \<le> CurrentQuestion (fst (grun [(exX, EvStartOrSkip)] (newGame exX exQuiz 1)))
           \<and> CurrentQuestion (fst (grun [(exX, EvStartOrSkip)] (newGame exX exQuiz 1)))
               < int (length (Questions exQuiz))))"
proof -
  have h: "int (length [(exX, EvStartOrSkip)]) + int (length [(exX, EvStartOrSkip)]) < 2 ^ 63"
    by simp
  have s: "State (fst (grun [(exX, EvStartOrSkip)] (newGame exX exQuiz 1))) \<noteq> EndState"
    by (simp add: gstep_def game_defs ex_defs Let_def wrap64_def split_beta)
  from question_index_over_a_run [OF h, of exX exQuiz 1] s h show ?thesis
    by blast
qed

text \<open>
  Claim C3 as stated: the index would never exceed the number of questions. On a quiz
  of one question the host starts the game and skips the question, which ends the game
  with index 1; one more start-or-skip request makes the index 2.
\<close>

theorem question_index_counterexample:
  "length (Questions exQuiz) = 1
   \<and> CurrentQuestion (fst (grun [(exX, EvStartOrSkip), (exX, EvStartOrSkip), (exX, EvStartOrSkip)]
                             (newGame exX exQuiz 1))) = 2
   \<and> State (fst (grun [(exX, EvStartOrSkip), (exX, EvStartOrSkip)] (newGame exX exQuiz 1)))
       = EndState"
  by (simp add: gstep_def game_defs ex_defs Let_def wrap64_def split_beta)

subsection \<open>After the end\<close>








text \<open>Every ended game of a run from a new game is in that situation.\<close>

lemma reachable_ended:
  assumes "int (length es) < 2 ^ 63" and "Ended (fst (grun es (newGame X quiz host)))"
  shows "State (fst (grun es (newGame X quiz host))) = EndState
    \<and> int (length (Questions (gameQuiz (fst (grun es (newGame X quiz host))))))
        \<le> CurrentQuestion (fst (grun es (newGame X quiz host)))"
proof -
  have b: "CurrentQuestion (newGame X quiz host) + int (length es) < 2 ^ 63"
    using assms(1) by (simp add: newGame_def)
  from grun_inv [OF gameInv_newGame b]
  have "gameInv (fst (grun es (newGame X quiz host)))" by simp
  then show ?thesis using assms(2) by (simp add: gameInv_def)
qed

subsection \<open>Runs of the service\<close>

lemma firstIndex_Some:
  "firstIndex P xs = Some k \<Longrightarrow> k < length xs \<and> P (xs ! k)"
proof (induction xs arbitrary: k)
  case Nil
  then show ?case by simp
next
  case (Cons x xs)
  then show ?case by (auto split: if_splits)
qed

lemma playerIn_Some:
  "playerIn con gs = Some (k, i) \<Longrightarrow>
     k < length gs \<and> i < length (Players (gs ! k)) \<and> Connection (Players (gs ! k) ! i) = con"
proof (induction gs arbitrary: k)
  case Nil
  then show ?case by simp
next
  case (Cons g gs)
  show ?case
  proof (cases "firstIndex (\<lambda>player. Connection player = con) (Players g)")
    case (Some j)
    then show ?thesis using Cons.prems firstIndex_Some [OF Some] by auto
  next
    case None
    then obtain k' where "playerIn con gs = Some (k', i)" and "k = Suc k'"
      using Cons.prems by auto
    then show ?thesis using Cons.IH [of k'] by simp
  qed
qed

lemma dispatch_cases:
  "dispatch X con a s = (s, [], None)
   \<or> (\<exists>k gev. k < length (games s) \<and> dispatch X con a s = onGame X k gev s)
   \<or> (\<exists>quiz. dispatch X con a s = hosted X quiz con s)"
proof (cases a)
  case (Val p)
  then show ?thesis by (simp add: dispatch_def)
next
  case (Ptr p)
  show ?thesis
  proof (cases p)
    case (ConnectPacket code name)
    show ?thesis
    proof (cases "getGameByCode s code")
      case None
      then show ?thesis by (simp add: dispatch_def Ptr ConnectPacket)
    next
      case (Some k)
      then have k: "k < length (games s)"
        by (auto simp: getGameByCode_def dest: firstIndex_Some)
      have "dispatch X con a s = onGame X k (EvJoin name con) s"
        by (simp add: dispatch_def Ptr ConnectPacket Some onGame_def gstep_def split_beta)
      then show ?thesis using k by blast
    qed
  next
    case (HostGamePacket qid)
    show ?thesis
    proof (cases "objectIDFromHex X qid")
      case None
      then show ?thesis by (simp add: dispatch_def Ptr HostGamePacket)
    next
      case (Some oid)
      show ?thesis
      proof (cases "getQuizById X oid")
        case None
        then show ?thesis by (simp add: dispatch_def Ptr HostGamePacket Some)
      next
        case (Some quiz)
        have "dispatch X con a s = hosted X quiz con s"
          by (simp add: dispatch_def Ptr HostGamePacket \<open>objectIDFromHex X qid = Some oid\<close>
              Some hosted_def Let_def)
        then show ?thesis by blast
      qed
    qed
  next
    case StartGamePacket
    show ?thesis
    proof (cases "getGameByHost s con")
      case None
      then show ?thesis by (simp add: dispatch_def Ptr StartGamePacket)
    next
      case (Some k)
      then have k: "k < length (games s)"
        by (auto simp: getGameByHost_def dest: firstIndex_Some)
      have "dispatch X con a s = onGame X k EvStartOrSkip s"
        by (simp add: dispatch_def Ptr StartGamePacket Some onGame_def gstep_def split_beta)
      then show ?thesis using k by blast
    qed
  next
    case (QuestionAnswerPacket question)
    show ?thesis
    proof (cases "getGameByPlayer s con")
      case None
      then show ?thesis by (simp add: dispatch_def Ptr QuestionAnswerPacket)
    next
      case (Some ki)
      obtain k i where ki: "ki = (k, i)" by (cases ki)
      from Some ki have k: "k < length (games s)" and i: "i < length (Players (games s ! k))"
        by (auto simp: getGameByPlayer_def dest: playerIn_Some)
      have "dispatch X con a s = onGame X k (EvAnswer question i) s"
        using i
        by (simp add: dispatch_def Ptr QuestionAnswerPacket Some ki onGame_def gstep_def split_beta)
      then show ?thesis using k by blast
    qed
  qed (simp_all add: dispatch_def Ptr)
qed

lemma step_cases:
  "step X ev s = (s, [], None)
   \<or> (\<exists>k gev. k < length (games s) \<and> step X ev s = onGame X k gev s)
   \<or> (\<exists>quiz con. step X ev s = hosted X quiz con s)"
proof (cases ev)
  case (Incoming con msg)
  show ?thesis
  proof (cases "decodeIncoming X msg")
    case None
    then show ?thesis by (simp add: step_def Incoming OnIncomingMessage_def)
  next
    case (Some a)
    then have "step X ev s = dispatch X con a s"
      by (simp add: step_def Incoming OnIncomingMessage_def)
    then show ?thesis using dispatch_cases [of X con a s] by auto
  qed
next
  case (Disconnect con)
  show ?thesis
  proof (cases "getGameByPlayer s con")
    case None
    then show ?thesis by (simp add: step_def Disconnect OnDisconnect_def)
  next
    case (Some ki)
    obtain k i where ki: "ki = (k, i)" by (cases ki)
    from Some ki have k: "k < length (games s)" and i: "i < length (Players (games s ! k))"
      by (auto simp: getGameByPlayer_def dest: playerIn_Some)
    have "step X ev s = onGame X k (EvDisconnect i) s"
      using i
      by (simp add: step_def Disconnect OnDisconnect_def Some ki onGame_def gstep_def
          split_beta Let_def)
    then show ?thesis using k by blast
  qed
next
  case (Timer k)
  show ?thesis
  proof (cases "k < length (games s)")
    case True
    have "step X ev s = onGame X k EvTimer s"
      using True by (simp add: step_def Timer onGame_def gstep_def split_beta)
    then show ?thesis using True by blast
  next
    case False
    then show ?thesis by (simp add: step_def Timer)
  qed
qed

lemma onGame_hosts:
  assumes "k < length (games s)"
  shows "map Host (games (fst (onGame X k gev s))) = map Host (games s)"
proof -
  have "map Host ((games s)[k := fst (gstep X gev (games s ! k))])
          = (map Host (games s))[k := map Host (games s) ! k]"
    using assms by (simp add: map_update gstep_const)
  then show ?thesis by (simp add: onGame_def)
qed

lemma onGame_out:
  assumes "k < length (games s)" and "m \<in> set (fst (snd (onGame X k gev s)))"
    and "tagOf m = Some 2"
  shows "fst m \<in> Host ` set (games s)"
proof -
  have "m \<in> set (fst (snd (gstep X gev (games s ! k))))"
    using assms(2) by (simp add: onGame_def)
  then have "fst m = Host (games s ! k)" using assms(3) by (rule gstep_out)
  then show ?thesis using assms(1) by simp
qed

lemma hosted_out:
  assumes "m \<in> set (fst (snd (hosted X quiz con s)))"
  shows "tagOf m = Some 1 \<or> tagOf m = Some 3"
  using assms by (auto simp: hosted_def dest!: SendPacket_out)

lemma step_out:
  assumes "m \<in> set (fst (snd (step X ev s)))" and "tagOf m = Some 2"
  shows "fst m \<in> Host ` set (games s)"
proof -
  from step_cases [of X ev s] consider
    "step X ev s = (s, [], None)"
    | k gev where "k < length (games s)" and "step X ev s = onGame X k gev s"
    | quiz con where "step X ev s = hosted X quiz con s"
    by blast
  then show ?thesis
  proof cases
    case 1
    then show ?thesis using assms(1) by simp
  next
    case 2
    then show ?thesis using assms onGame_out [of k s m X gev] by simp
  next
    case 3
    then show ?thesis using assms hosted_out [of m X quiz con s] by auto
  qed
qed

lemma step_hosts: "Host ` set (games s) \<subseteq> Host ` set (games (fst (step X ev s)))"
proof -
  from step_cases [of X ev s] consider
    "step X ev s = (s, [], None)"
    | k gev where "k < length (games s)" and "step X ev s = onGame X k gev s"
    | quiz con where "step X ev s = hosted X quiz con s"
    by blast
  then show ?thesis
  proof cases
    case 1
    then show ?thesis by simp
  next
    case 2
    have "set (map Host (games (fst (step X ev s)))) = set (map Host (games s))"
      using onGame_hosts [OF 2(1), of X gev] by (simp add: 2(2))
    then show ?thesis by simp
  next
    case 3
    then show ?thesis by (auto simp: hosted_def)
  qed
qed

lemma run_fst_Cons: "fst (run ((X, ev) # es) s) = fst (run es (fst (step X ev s)))"
  by (simp add: split_beta)

lemma run_snd_Cons:
  "snd (run ((X, ev) # es) s) = fst (snd (step X ev s)) @ snd (run es (fst (step X ev s)))"
  by (simp add: split_beta)

lemma run_hosts: "Host ` set (games s) \<subseteq> Host ` set (games (fst (run es s)))"
proof (induction es arbitrary: s)
  case Nil
  then show ?case by simp
next
  case (Cons a es)
  obtain X ev where a: "a = (X, ev)" by (cases a)
  have "Host ` set (games s) \<subseteq> Host ` set (games (fst (step X ev s)))"
    by (rule step_hosts)
  also have "\<dots> \<subseteq> Host ` set (games (fst (run es (fst (step X ev s)))))"
    by (rule Cons.IH)
  finally show ?case by (simp add: a run_fst_Cons del: run.simps)
qed

lemma run_out:
  assumes "m \<in> set (snd (run es s))" and "tagOf m = Some 2"
  shows "fst m \<in> Host ` set (games (fst (run es s)))"
  using assms
proof (induction es arbitrary: s)
  case Nil
  then show ?case by simp
next
  case (Cons a es)
  obtain X ev where a: "a = (X, ev)" by (cases a)
  let ?s1 = "fst (step X ev s)"
  from Cons.prems(1) have "m \<in> set (fst (snd (step X ev s))) \<or> m \<in> set (snd (run es ?s1))"
    by (simp add: a run_snd_Cons del: run.simps)
  then have "fst m \<in> Host ` set (games (fst (run es ?s1)))"
  proof
    assume "m \<in> set (fst (snd (step X ev s)))"
    then have "fst m \<in> Host ` set (games s)" using Cons.prems(2) by (rule step_out)
    then have "fst m \<in> Host ` set (games ?s1)" using step_hosts [of s X ev] by blast
    then show ?thesis using run_hosts [of ?s1 es] by blast
  next
    assume "m \<in> set (snd (run es ?s1))"
    then show ?thesis using Cons.prems(2) by (rule Cons.IH)
  qed
  then show ?case by (simp add: a run_fst_Cons del: run.simps)
qed

text \<open>
  Claim C9, as the code has it. In every run of a game, from any state, each message
  with the tag of QuestionShow (2) is addressed to the host connection of that game,
  which never changes; in every run of the service each such message is addressed to
  the host connection of one of its games. So a connection of a roster receives a
  QuestionShow message only if it is a host connection as well.
\<close>

theorem question_show_to_host:
  "(\<forall>m \<in> set (snd (grun es g)). tagOf m = Some 2 \<longrightarrow> fst m = Host g)
   \<and> Host (fst (grun es g)) = Host g
   \<and> (\<forall>m \<in> set (snd (run evs s)). tagOf m = Some 2 \<longrightarrow>
         (\<exists>game \<in> set (games (fst (run evs s))). fst m = Host game))"
proof -
  have a: "\<forall>m \<in> set (snd (grun es g)). tagOf m = Some 2 \<longrightarrow> fst m = Host g"
    using grun_out [of _ es g] by blast
  have b: "Host (fst (grun es g)) = Host g" by (simp add: grun_const)
  have c: "\<forall>m \<in> set (snd (run evs s)). tagOf m = Some 2 \<longrightarrow>
         (\<exists>game \<in> set (games (fst (run evs s))). fst m = Host game)"
    using run_out [of _ evs s] by blast
  from a b c show ?thesis by blast
qed

lemma exRun_eval:
  "snd (run exRun \<lparr>games = []\<rparr>) =
     [(1, 1 # emptyJson), (1, 3 # emptyJson), (2, 3 # emptyJson), (1, 4 # emptyJson),
      (2, 3 # emptyJson), (1, 3 # emptyJson), (2, 3 # emptyJson), (1, 3 # emptyJson),
      (1, 2 # emptyJson)]"
  by (simp add: exRun_def net_defs game_defs ex_defs Let_def wrap64_def split_beta digits_ex)

lemma exSelfJoin_eval:
  "snd (run exSelfJoin \<lparr>games = []\<rparr>) =
     [(1, 1 # emptyJson), (1, 3 # emptyJson), (1, 3 # emptyJson), (1, 4 # emptyJson),
      (1, 3 # emptyJson), (1, 3 # emptyJson), (1, 3 # emptyJson), (1, 3 # emptyJson),
      (1, 2 # emptyJson)]
   \<and> map Connection (Players (games (fst (run exSelfJoin \<lparr>games = []\<rparr>)) ! 0)) = [1]
   \<and> Host (games (fst (run exSelfJoin \<lparr>games = []\<rparr>)) ! 0) = 1"
  by (simp add: exSelfJoin_def net_defs game_defs ex_defs Let_def wrap64_def split_beta digits_ex)

text \<open>The theorem at the first run: the question goes to connection 1, the host, and
  not to connection 2, the player.\<close>

theorem question_show_to_host_witness:
  "(1, 2 # emptyJson) \<in> set (snd (run exRun \<lparr>games = []\<rparr>))
   \<and> tagOf (1, 2 # emptyJson) = Some 2
   \<and> (2, 2 # emptyJson) \<notin> set (snd (run exRun \<lparr>games = []\<rparr>))
   \<and> (\<exists>game \<in> set (games (fst (run exRun \<lparr>games = []\<rparr>))).
         fst (1 :: conn, 2 # emptyJson) = Host game)"
proof -
  have m: "(1, 2 # emptyJson) \<in> set (snd (run exRun \<lparr>games = []\<rparr>))"
    by (simp add: exRun_eval)
  have n: "(2, 2 # emptyJson) \<notin> set (snd (run exRun \<lparr>games = []\<rparr>))"
    by (simp add: exRun_eval)
  have t: "tagOf (1, 2 # emptyJson) = Some 2"
    by (simp add: tagOf_def)
  from question_show_to_host [of _ _ exRun "\<lparr>games = []\<rparr>"] m t
  have "\<exists>game \<in> set (games (fst (run exRun \<lparr>games = []\<rparr>))).
          fst (1 :: conn, 2 # emptyJson) = Host game"
    by blast
  with m n t show ?thesis by blast
qed

text \<open>
  Claim C9 as stated: no QuestionShow message would go to the connection of a player.
  In the second run connection 1 hosts a game and joins it with its code; when it
  starts the game, the question is sent to connection 1, the connection of the only
  player of the roster.
\<close>

theorem question_show_counterexample:
  "(1, 2 # emptyJson) \<in> set (snd (run exSelfJoin \<lparr>games = []\<rparr>))
   \<and> tagOf (1, 2 # emptyJson) = Some 2
   \<and> map Connection (Players (games (fst (run exSelfJoin \<lparr>games = []\<rparr>)) ! 0)) = [1]"
  by (simp add: exSelfJoin_eval tagOf_def)

end
